theory Spec2Isabelle
  imports
    Complex_Main
    "HOL-Library.Char_ord"
    "HOL-Library.List_Lexorder"
    "HOL-Library.Product_Lexorder"
    "HOL-Library.Multiset"
    "HOL-Library.Sublist"
begin

section \<open>Values returned by the gateway\<close>

text \<open>
  The script \<^verbatim>\<open>fritz_cleanup_fritzconnection.py\<close> works on whatever
  \<^verbatim>\<open>call_action\<close> returns: nested Python dictionaries and lists with scalar
  leaves. A dictionary is an association list in insertion order (Python dictionaries
  keep it); a well-formed one has pairwise different keys. Strings are lists of
  characters read as the code points 0 to 255; numbers are Python's unbounded integers.
  Floating-point values inside an answer are not modelled.
\<close>

datatype pyval =
    PNone
  | PBool bool
  | PInt int
  | PStr string
  | PDict "(string \<times> pyval) list"
  | PList "pyval list"

type_synonym conn = "(string \<times> pyval) list"

text \<open>Python's truth value of an object, as \<^verbatim>\<open>if x\<close>, \<^verbatim>\<open>not x\<close> and \<^verbatim>\<open>x or y\<close> use it.\<close>

fun truthy :: "pyval \<Rightarrow> bool" where
  "truthy PNone = False"
| "truthy (PBool b) = b"
| "truthy (PInt n) = (n \<noteq> 0)"
| "truthy (PStr s) = (s \<noteq> [])"
| "truthy (PDict kvs) = (kvs \<noteq> [])"
| "truthy (PList xs) = (xs \<noteq> [])"

definition py_or :: "pyval \<Rightarrow> pyval \<Rightarrow> pyval" where
  "py_or a b = (if truthy a then a else b)"

text \<open>\<^verbatim>\<open>k in d\<close> and \<^verbatim>\<open>d.get(k)\<close> (with \<^verbatim>\<open>None\<close> for a missing key).\<close>

definition has_key :: "conn \<Rightarrow> string \<Rightarrow> bool" where
  "has_key c k = (k \<in> set (map fst c))"

definition dict_get :: "conn \<Rightarrow> string \<Rightarrow> pyval" where
  "dict_get c k = (case map_of c k of None \<Rightarrow> PNone | Some v \<Rightarrow> v)"

section \<open>Extraction of connection records\<close>

definition hint_keys :: "string list" where
  "hint_keys = [''RemoteHost'', ''RemotePort'', ''Protocol'', ''BytesSent'', ''BytesReceived'',
                ''LastActivity'', ''LastActive'', ''ConnectionID'', ''Id'', ''ID'', ''State'']"

text \<open>\<^verbatim>\<open>keys & hint_keys\<close> is a non-empty set.\<close>

definition hinted :: "conn \<Rightarrow> bool" where
  "hinted kvs = (set (map fst kvs) \<inter> set hint_keys \<noteq> {})"

text \<open>
  \<^verbatim>\<open>find_conn_nodes\<close> (used for an action that the service declares) and
  \<^verbatim>\<open>find_conn_nodes2\<close> (used for an undeclared one) are two textual copies of the same
  walk. Only dictionaries are ever appended, so the result is a list of records.
\<close>

fun find_conn_nodes :: "pyval \<Rightarrow> conn list" where
  "find_conn_nodes (PDict kvs) =
     (if hinted kvs then [kvs]
      else concat (map (\<lambda>kv. find_conn_nodes (snd kv)) kvs))"
| "find_conn_nodes (PList xs) = concat (map find_conn_nodes xs)"
| "find_conn_nodes _ = []"

fun find_conn_nodes2 :: "pyval \<Rightarrow> conn list" where
  "find_conn_nodes2 (PDict kvs) =
     (if hinted kvs then [kvs]
      else concat (map (\<lambda>kv. find_conn_nodes2 (snd kv)) kvs))"
| "find_conn_nodes2 (PList xs) = concat (map find_conn_nodes2 xs)"
| "find_conn_nodes2 _ = []"

section \<open>Python's string operations\<close>

text \<open>
  \<^verbatim>\<open>str.lower()\<close> on the code points below 256: the ASCII capitals and the Latin-1
  capitals other than the multiplication sign move up by 32.
\<close>

definition lower_char :: "char \<Rightarrow> char" where
  "lower_char c =
     (let n = (of_char c :: nat)
      in if (65 \<le> n \<and> n \<le> 90) \<or> (192 \<le> n \<and> n \<le> 222 \<and> n \<noteq> 215)
         then char_of (n + 32) else c)"

definition lower :: "string \<Rightarrow> string" where
  "lower s = map lower_char s"

text \<open>\<^verbatim>\<open>frag.lower() in svcname.lower()\<close>: substring test on the lowered strings.\<close>

definition frag_in :: "string \<Rightarrow> string \<Rightarrow> bool" where
  "frag_in frag svcname = sublist (lower frag) (lower svcname)"

text \<open>\<^verbatim>\<open>str(n)\<close> of an integer: decimal digits, a minus sign for a negative number.\<close>

definition digit_char :: "nat \<Rightarrow> char" where
  "digit_char d = char_of (48 + d)"

function str_nat :: "nat \<Rightarrow> string" where
  "str_nat n = (if n < 10 then [digit_char n] else str_nat (n div 10) @ [digit_char (n mod 10)])"
  by pat_completeness auto
termination
  by (relation "measure (\<lambda>n. n)") auto

definition str_int :: "int \<Rightarrow> string" where
  "str_int i = (if i < 0 then CHR ''-'' # str_nat (nat (- i)) else str_nat (nat i))"

text \<open>
  \<^verbatim>\<open>repr(s)\<close> of a string, as \<^verbatim>\<open>str\<close> of a dictionary or list applies it to the
  strings inside: double quotes when the string has a single quote and no double quote,
  single quotes otherwise; the quote and the backslash are escaped, tab, newline and
  carriage return are written \<^verbatim>\<open>\t \n \r\<close>, the other non-printable code points
  as \<^verbatim>\<open>\xhh\<close>.
\<close>

definition hex_digit :: "nat \<Rightarrow> char" where
  "hex_digit d = (if d < 10 then char_of (48 + d) else char_of (87 + d))"

definition repr_char :: "char \<Rightarrow> char \<Rightarrow> string" where
  "repr_char q c =
     (let n = (of_char c :: nat)
      in if c = q \<or> c = CHR 0x5C then [CHR 0x5C, c]
         else if n = 9 then [CHR 0x5C, CHR ''t'']
         else if n = 10 then [CHR 0x5C, CHR ''n'']
         else if n = 13 then [CHR 0x5C, CHR ''r'']
         else if n < 32 \<or> n = 127 \<or> (128 \<le> n \<and> n \<le> 160) \<or> n = 173
           then [CHR 0x5C, CHR ''x'', hex_digit (n div 16), hex_digit (n mod 16)]
         else [c])"

definition repr_str :: "string \<Rightarrow> string" where
  "repr_str s =
     (let q = (if CHR 0x27 \<in> set s \<and> CHR 0x22 \<notin> set s then CHR 0x22 else CHR 0x27)
      in q # concat (map (repr_char q) s) @ [q])"

fun join :: "string \<Rightarrow> string list \<Rightarrow> string" where
  "join sep [] = []"
| "join sep [x] = x"
| "join sep (x # y # ys) = x @ sep @ join sep (y # ys)"

fun py_repr :: "pyval \<Rightarrow> string" where
  "py_repr PNone = ''None''"
| "py_repr (PBool b) = (if b then ''True'' else ''False'')"
| "py_repr (PInt i) = str_int i"
| "py_repr (PStr s) = repr_str s"
| "py_repr (PDict kvs) =
     ''{'' @ join '', '' (map (\<lambda>kv. repr_str (fst kv) @ '': '' @ py_repr (snd kv)) kvs) @ ''}''"
| "py_repr (PList xs) = ''['' @ join '', '' (map py_repr xs) @ '']''"

definition py_str :: "pyval \<Rightarrow> string" where
  "py_str v = (case v of PStr s \<Rightarrow> s | _ \<Rightarrow> py_repr v)"

text \<open>
  \<^verbatim>\<open>int(x)\<close>, with \<open>None\<close> for the \<^verbatim>\<open>TypeError\<close> or \<^verbatim>\<open>ValueError\<close> it raises.
  A string is stripped of white space at both ends and is then an optional sign followed by
  decimal digits, where single underscores may stand between two digits. The limit that
  newer interpreters put on the number of digits is not modelled.
\<close>

definition is_space :: "char \<Rightarrow> bool" where
  "is_space c = (let n = (of_char c :: nat) in (9 \<le> n \<and> n \<le> 13) \<or> n = 32 \<or> n = 133 \<or> n = 160)"

definition is_digit :: "char \<Rightarrow> bool" where
  "is_digit c = (let n = (of_char c :: nat) in 48 \<le> n \<and> n \<le> 57)"

definition strip :: "string \<Rightarrow> string" where
  "strip s = rev (dropWhile is_space (rev (dropWhile is_space s)))"

fun parse_digits :: "bool \<Rightarrow> int \<Rightarrow> string \<Rightarrow> int option" where
  "parse_digits prev acc [] = (if prev then Some acc else None)"
| "parse_digits prev acc (c # cs) =
     (if is_digit c then parse_digits True (10 * acc + (of_char c - 48)) cs
      else if c = CHR ''_'' \<and> prev then parse_digits False acc cs
      else None)"

definition int_of_str :: "string \<Rightarrow> int option" where
  "int_of_str s =
     (case strip s of
        [] \<Rightarrow> None
      | c # cs \<Rightarrow>
          if c = CHR ''-'' then map_option uminus (parse_digits False 0 cs)
          else if c = CHR ''+'' then parse_digits False 0 cs
          else parse_digits False 0 (c # cs))"

fun py_int :: "pyval \<Rightarrow> int option" where
  "py_int (PInt i) = Some i"
| "py_int (PBool b) = Some (if b then 1 else 0)"
| "py_int (PStr s) = int_of_str s"
| "py_int _ = None"

section \<open>Exceptions and floating-point numbers\<close>

text \<open>The exceptions that no handler of the script catches; they end the run.\<close>

datatype error = ValueError | OverflowError | OSError

text \<open>
  A floating-point number is a rational or one of the two infinities. The clock
  \<^verbatim>\<open>time.time()\<close> is finite, and the difference of two finite numbers is never
  not-a-number. Comparing a floating-point number with an integer is exact in Python, and
  so is \<^verbatim>\<open>int(x)\<close>, which truncates towards zero and raises \<^verbatim>\<open>OverflowError\<close> on an
  infinity.
\<close>

datatype pyfloat = Fin rat | PosInf | NegInf

fun float_ge :: "pyfloat \<Rightarrow> int \<Rightarrow> bool" where
  "float_ge (Fin x) n = (of_int n \<le> x)"
| "float_ge PosInf n = True"
| "float_ge NegInf n = False"

definition py_trunc :: "rat \<Rightarrow> int" where
  "py_trunc x = (if 0 \<le> x then \<lfloor>x\<rfloor> else \<lceil>x\<rceil>)"

fun int_of_float :: "pyfloat \<Rightarrow> int option" where
  "int_of_float (Fin x) = Some (py_trunc x)"
| "int_of_float PosInf = None"
| "int_of_float NegInf = None"

text \<open>
  \<^verbatim>\<open>now - ts\<close> subtracts an integer from a floating-point number: the integer is
  converted, which raises \<^verbatim>\<open>OverflowError\<close> when it is too large, and the difference
  is rounded to the nearest number the machine has. The rounding cannot be written down
  here, so the operation is a parameter, taking the clock and the time stamp, with \<open>None\<close>
  for the \<^verbatim>\<open>OverflowError\<close>.
\<close>

type_synonym float_sub = "rat \<Rightarrow> int \<Rightarrow> pyfloat option"

section \<open>The gateway as the script sees it\<close>

text \<open>
  The library \<^verbatim>\<open>fritzconnection\<close> is not part of the repository; the script uses
  \<^item> \<^verbatim>\<open>fc.services\<close>, the names of the exposed services in the library's order,
  \<^item> \<^verbatim>\<open>FritzService(fc, svcname)\<close>, which builds a service handle or raises,
  \<^item> \<^verbatim>\<open>svc.service_type\<close> and \<^verbatim>\<open>svc.actions\<close>, a dictionary from the declared action
    names to their declared parameter names,
  \<^item> \<^verbatim>\<open>svc.call_action(action, **args)\<close>, which returns a value or raises.
  They are parameters of the model. A raise is \<open>None\<close>. What the device answers may depend
  on everything it was asked before, so \<open>call_action\<close> takes the list of the calls made so
  far, and every function that calls the device returns that list extended.
\<close>

type_synonym kwargs = "(string \<times> pyval) list"

type_synonym call = "string \<times> kwargs"

record service =
  service_type :: string
  actions :: "(string \<times> string list) list"
  call_action :: "call list \<Rightarrow> string \<Rightarrow> kwargs \<Rightarrow> pyval option"

record gateway =
  services :: "string list"
  FritzService :: "string \<Rightarrow> service option"

text \<open>\<^verbatim>\<open>action in svc.actions\<close> and \<^verbatim>\<open>svc.actions.get(action, {})\<close>.\<close>

definition declared :: "service \<Rightarrow> string \<Rightarrow> bool" where
  "declared svc action = (action \<in> set (map fst (actions svc)))"

definition declared_params :: "service \<Rightarrow> string \<Rightarrow> string list" where
  "declared_params svc action = (case map_of (actions svc) action of None \<Rightarrow> [] | Some ps \<Rightarrow> ps)"

section \<open>Choosing the service\<close>

text \<open>
  \<^verbatim>\<open>try_service\<close>: the inner loop over \<^verbatim>\<open>fc.services\<close> for one fragment, then the
  loop over the fragments. A handle that cannot be built is skipped
  (\<^verbatim>\<open>except Exception: continue\<close>).
\<close>

fun try_names :: "gateway \<Rightarrow> string \<Rightarrow> string list \<Rightarrow> service option" where
  "try_names fc frag [] = None"
| "try_names fc frag (svcname # rest) =
     (if frag_in frag svcname then
        (case FritzService fc svcname of
           Some svc \<Rightarrow> Some svc
         | None \<Rightarrow> try_names fc frag rest)
      else try_names fc frag rest)"

fun try_service :: "gateway \<Rightarrow> string list \<Rightarrow> service option" where
  "try_service fc [] = None"
| "try_service fc (frag # frags) =
     (case try_names fc frag (services fc) of
        Some svc \<Rightarrow> Some svc
      | None \<Rightarrow> try_service fc frags)"

definition candidates :: "string list" where
  "candidates = [''WANIPConnection'', ''WANPPPConnection'', ''ConnectionManager'',
                 ''PPPConnection'', ''WANCommonInterfaceConfig'', ''DeviceInfo'',
                 ''Layer3Forwarding'']"

section \<open>Collecting the connections\<close>

definition actions_to_try :: "string list" where
  "actions_to_try = [''GetActiveConnections'', ''GetGenericConnections'', ''GetConnectionList'',
                     ''GetActivePortMappings'', ''GetPortMappingNumberOfEntries'']"

text \<open>
  The loop over \<^verbatim>\<open>actions_to_try\<close>. Both branches call the action without arguments;
  a call that raises contributes nothing and the loop goes on.
\<close>

fun collect :: "service \<Rightarrow> string list \<Rightarrow> call list \<Rightarrow> conn list \<Rightarrow> conn list \<times> call list" where
  "collect svc [] sent connections = (connections, sent)"
| "collect svc (act # acts) sent connections =
     (if declared svc act then
        (case call_action svc sent act [] of
           None \<Rightarrow> collect svc acts (sent @ [(act, [])]) connections
         | Some res \<Rightarrow> collect svc acts (sent @ [(act, [])]) (connections @ find_conn_nodes res))
      else
        (case call_action svc sent act [] of
           None \<Rightarrow> collect svc acts (sent @ [(act, [])]) connections
         | Some res \<Rightarrow> collect svc acts (sent @ [(act, [])]) (connections @ find_conn_nodes2 res)))"

section \<open>Removing duplicates\<close>

text \<open>
  \<^verbatim>\<open>key = tuple(sorted([(k, str(v)) for k, v in c.items()]))\<close>. Python compares the pairs
  lexicographically and the strings by code point, which is the order of
  \<open>string \<times> string\<close> here.
\<close>

type_synonym conn_key = "(string \<times> string) list"

definition conn_key :: "conn \<Rightarrow> conn_key" where
  "conn_key c = sort (map (\<lambda>kv. (fst kv, py_str (snd kv))) c)"

fun dedup_loop :: "conn list \<Rightarrow> conn_key set \<Rightarrow> conn list \<Rightarrow> conn list" where
  "dedup_loop [] seen unique = unique"
| "dedup_loop (c # cs) seen unique =
     (let key = conn_key c
      in if key \<in> seen then dedup_loop cs seen unique
         else dedup_loop cs (insert key seen) (unique @ [c]))"

definition dedup :: "conn list \<Rightarrow> conn list" where
  "dedup connections = dedup_loop connections {} []"

section \<open>Time stamps and staleness\<close>

text \<open>
  \<^verbatim>\<open>int(datetime.datetime.strptime(s, f).timestamp())\<close> reads a local time, so its value
  depends on the library and on the time zone of the machine: it is a parameter, taking
  the value and the format, with \<open>None\<close> when the parse or the conversion raises.
\<close>

type_synonym strptime = "pyval \<Rightarrow> string \<Rightarrow> int option"

definition fmts :: "string list" where
  "fmts = [''%Y-%m-%dT%H:%M:%S'', ''%d.%m.%Y %H:%M:%S'', ''%Y-%m-%d %H:%M:%S'']"

fun try_fmts :: "strptime \<Rightarrow> pyval \<Rightarrow> string list \<Rightarrow> int option" where
  "try_fmts strp s [] = None"
| "try_fmts strp s (f # fs) =
     (case strp s f of
        Some t \<Rightarrow> Some t
      | None \<Rightarrow> try_fmts strp s fs)"

definition parse_time_str :: "strptime \<Rightarrow> pyval \<Rightarrow> int option" where
  "parse_time_str strp s =
     (if s = PNone then None
      else case py_int s of
             Some t \<Rightarrow> Some t
           | None \<Rightarrow> try_fmts strp s fmts)"

definition time_fields :: "string list" where
  "time_fields = [''LastActivity'', ''LastActive'', ''LastSeen'', ''Time'', ''Timestamp'']"

text \<open>The loop with \<^verbatim>\<open>break\<close> that sets \<^verbatim>\<open>last\<close>, which starts as \<^verbatim>\<open>None\<close>.\<close>

fun last_field :: "string list \<Rightarrow> conn \<Rightarrow> pyval" where
  "last_field [] c = PNone"
| "last_field (field # rest) c =
     (if has_key c field then dict_get c field else last_field rest c)"

definition THRESHOLD_SECONDS :: int where
  "THRESHOLD_SECONDS = 3600 * 24"

text \<open>
  The loop that fills \<^verbatim>\<open>to_kill\<close>. The clock \<^verbatim>\<open>time.time()\<close> is the value of a
  floating-point number, a rational. An entry of \<^verbatim>\<open>to_kill\<close> is the record, its time
  stamp and its age in whole seconds. Neither \<^verbatim>\<open>now - ts\<close> nor \<^verbatim>\<open>int(age)\<close> stands
  in a \<^verbatim>\<open>try\<close>: when one of them raises, the run ends there, and the result is the list
  as far as it was filled together with the exception.
\<close>

type_synonym stale = "conn \<times> int \<times> int"

fun stale_loop ::
  "strptime \<Rightarrow> float_sub \<Rightarrow> rat \<Rightarrow> int \<Rightarrow> conn list \<Rightarrow> stale list
   \<Rightarrow> stale list \<times> error option" where
  "stale_loop strp fsub now threshold [] to_kill = (to_kill, None)"
| "stale_loop strp fsub now threshold (c # cs) to_kill =
     (case parse_time_str strp (last_field time_fields c) of
        None \<Rightarrow> stale_loop strp fsub now threshold cs to_kill
      | Some ts \<Rightarrow>
          (case fsub now ts of
             None \<Rightarrow> (to_kill, Some OverflowError)
           | Some age \<Rightarrow>
               if float_ge age threshold then
                 (case int_of_float age of
                    None \<Rightarrow> (to_kill, Some OverflowError)
                  | Some whole \<Rightarrow>
                      stale_loop strp fsub now threshold cs (to_kill @ [(c, ts, whole)]))
               else stale_loop strp fsub now threshold cs to_kill))"

definition find_stale ::
  "strptime \<Rightarrow> float_sub \<Rightarrow> rat \<Rightarrow> int \<Rightarrow> conn list \<Rightarrow> stale list \<times> error option" where
  "find_stale strp fsub now threshold connections =
     stale_loop strp fsub now threshold connections []"

section \<open>Closing the stale connections\<close>

text \<open>
  What the script prints, one constructor for each \<^verbatim>\<open>print\<close> of \<^verbatim>\<open>main\<close>, and the
  trace of an exception that nothing caught. The line of a stale connection carries
  \<^verbatim>\<open>remote\<close>, \<^verbatim>\<open>port\<close>, \<^verbatim>\<open>connid\<close>, the time stamp and the age. The line shows
  the time stamp as a local date, \<^verbatim>\<open>datetime.datetime.fromtimestamp(ts)\<close>; the text
  of the date is not modelled, but the call raises for a time stamp outside the dates that
  the machine can show, and it stands in no \<^verbatim>\<open>try\<close>. Which time stamps these are
  depends on the machine and its time zone: the exception that the call raises, if any, is
  a parameter.
\<close>

type_synonym fromtimestamp = "int \<Rightarrow> error option"

datatype line =
    ConnectFailed
  | NoService "string list"
  | UsedService string
  | PortMappings int
  | NoConnections
  | NoStale
  | ToClose nat bool
  | Report pyval pyval pyval int int
  | Executed string
  | CouldNotClose
  | Traceback error

definition DRY_RUN :: bool where
  "DRY_RUN = True"

definition close_actions :: "string list" where
  "close_actions = [''DeleteConnection'', ''CloseConnection'', ''ForceCloseConnection'',
                    ''DestroyConnection'']"

definition id_keys :: "string list" where
  "id_keys = [''ConnectionID'', ''ID'', ''Id'']"

text \<open>\<^verbatim>\<open>args[key] = value\<close> on a dictionary.\<close>

definition dict_set :: "kwargs \<Rightarrow> string \<Rightarrow> pyval \<Rightarrow> kwargs" where
  "dict_set args k v =
     (if has_key args k then map (\<lambda>kv. if fst kv = k then (k, v) else kv) args
      else args @ [(k, v)])"

text \<open>The loop \<^verbatim>\<open>for key in ("ConnectionID", "ID", "Id")\<close>; it has no \<^verbatim>\<open>break\<close>.\<close>

fun bind_keys :: "string list \<Rightarrow> string list \<Rightarrow> pyval \<Rightarrow> kwargs \<Rightarrow> kwargs" where
  "bind_keys [] params connid args = args"
| "bind_keys (key # keys) params connid args =
     (if key \<in> set params then bind_keys keys params connid (dict_set args key connid)
      else bind_keys keys params connid args)"

definition build_args :: "service \<Rightarrow> string \<Rightarrow> pyval \<Rightarrow> pyval \<Rightarrow> pyval \<Rightarrow> kwargs" where
  "build_args svc action connid remote port =
     (if truthy connid then
        (let args = bind_keys id_keys (declared_params svc action) connid []
         in if args = [] then [(''ConnectionID'', connid)] else args)
      else
        (let args = (if truthy remote then dict_set [] ''RemoteHost'' remote else [])
         in if truthy port then dict_set args ''RemotePort'' port else args))"

text \<open>
  The loop over the close actions for one connection. The result is the action that was
  executed (\<^verbatim>\<open>closed = True\<close> and \<^verbatim>\<open>break\<close>), or \<open>None\<close> when the loop ran out with
  \<^verbatim>\<open>closed\<close> still false.
\<close>

fun try_close ::
  "service \<Rightarrow> string list \<Rightarrow> pyval \<Rightarrow> pyval \<Rightarrow> pyval \<Rightarrow> call list \<Rightarrow> string option \<times> call list" where
  "try_close svc [] connid remote port sent = (None, sent)"
| "try_close svc (action # rest) connid remote port sent =
     (if declared svc action then
        (let args = build_args svc action connid remote port
         in case call_action svc sent action args of
              Some res \<Rightarrow> (Some action, sent @ [(action, args)])
            | None \<Rightarrow> try_close svc rest connid remote port (sent @ [(action, args)]))
      else try_close svc rest connid remote port sent)"

definition get_connid :: "conn \<Rightarrow> pyval" where
  "get_connid c = py_or (py_or (dict_get c ''ConnectionID'') (dict_get c ''Id'')) (dict_get c ''ID'')"

definition get_remote :: "conn \<Rightarrow> pyval" where
  "get_remote c = py_or (py_or (dict_get c ''RemoteHost'') (dict_get c ''Description'')) (PStr [])"

definition get_port :: "conn \<Rightarrow> pyval" where
  "get_port c = py_or (py_or (dict_get c ''RemotePort'') (dict_get c ''Port'')) (PStr [])"

text \<open>
  The loop over \<^verbatim>\<open>to_kill\<close>. When the date of a connection cannot be shown the run
  ends before its line is printed: the result is what was printed and called so far,
  together with the exception.
\<close>

fun kill_loop ::
  "bool \<Rightarrow> fromtimestamp \<Rightarrow> service \<Rightarrow> string list \<Rightarrow> stale list \<Rightarrow> call list \<Rightarrow> line list
   \<Rightarrow> line list \<times> call list \<times> error option" where
  "kill_loop dry_run fromts svc acts [] sent out = (out, sent, None)"
| "kill_loop dry_run fromts svc acts ((c, ts, age) # rest) sent out =
     (let connid = get_connid c;
          remote = get_remote c;
          port = get_port c
      in case fromts ts of
           Some e \<Rightarrow> (out, sent, Some e)
         | None \<Rightarrow>
             (let out1 = out @ [Report remote port connid ts age]
              in if \<not> dry_run then
                   (case try_close svc acts connid remote port sent of
                      (Some action, sent1) \<Rightarrow>
                        kill_loop dry_run fromts svc acts rest sent1 (out1 @ [Executed action])
                    | (None, sent1) \<Rightarrow>
                        kill_loop dry_run fromts svc acts rest sent1 (out1 @ [CouldNotClose]))
                 else kill_loop dry_run fromts svc acts rest sent out1))"

definition terminate ::
  "bool \<Rightarrow> fromtimestamp \<Rightarrow> service \<Rightarrow> string list \<Rightarrow> stale list \<Rightarrow> call list
   \<Rightarrow> line list \<times> call list \<times> error option" where
  "terminate dry_run fromts svc acts to_kill sent =
     kill_loop dry_run fromts svc acts to_kill sent [ToClose (length to_kill) dry_run]"

section \<open>The whole run\<close>

text \<open>The count of port mappings, printed for information when no connection was found.\<close>

definition port_mapping_info :: "service \<Rightarrow> call list \<Rightarrow> line list \<times> call list" where
  "port_mapping_info svc sent =
     (if declared svc ''GetPortMappingNumberOfEntries'' then
        (case call_action svc sent ''GetPortMappingNumberOfEntries'' [] of
           Some (PDict kvs) \<Rightarrow>
             (case map_of kvs ''NewPortMappingNumberOfEntries'' of
                Some v \<Rightarrow> (case py_int v of Some n \<Rightarrow> [PortMappings n] | None \<Rightarrow> [])
              | None \<Rightarrow> [])
         | _ \<Rightarrow> [],
         sent @ [(''GetPortMappingNumberOfEntries'', [])])
      else ([], sent))"

text \<open>
  \<^verbatim>\<open>main\<close>, from the connection attempt (\<open>None\<close> when \<^verbatim>\<open>FritzConnection(...)\<close> raises)
  to the exit code. The configuration constants \<^verbatim>\<open>DRY_RUN\<close> and
  \<^verbatim>\<open>THRESHOLD_SECONDS\<close>, the clock and the three operations of the machine are
  arguments. An exception that nothing catches ends the run with its trace and the exit
  code 1.
\<close>

definition main ::
  "gateway option \<Rightarrow> strptime \<Rightarrow> float_sub \<Rightarrow> fromtimestamp \<Rightarrow> rat \<Rightarrow> bool \<Rightarrow> int
   \<Rightarrow> line list \<times> call list \<times> int" where
  "main connection strp fsub fromts now dry_run threshold =
     (case connection of
        None \<Rightarrow> ([ConnectFailed], [], 1)
      | Some fc \<Rightarrow>
          (case try_service fc candidates of
             None \<Rightarrow> ([NoService (take 40 (services fc))], [], 1)
           | Some svc \<Rightarrow>
               (case collect svc actions_to_try [] [] of
                  (connections, sent) \<Rightarrow>
                    if connections = [] then
                      (case port_mapping_info svc sent of
                         (info, sent1) \<Rightarrow>
                           ([UsedService (service_type svc)] @ info @ [NoConnections], sent1, 0))
                    else
                      (case find_stale strp fsub now threshold (dedup connections) of
                         (to_kill, Some e) \<Rightarrow>
                           ([UsedService (service_type svc), Traceback e], sent, 1)
                       | (to_kill, None) \<Rightarrow>
                           if to_kill = [] then
                             ([UsedService (service_type svc), NoStale], sent, 0)
                           else
                             (case terminate dry_run fromts svc close_actions to_kill sent of
                                (out, sent1, Some e) \<Rightarrow>
                                  (UsedService (service_type svc) # out @ [Traceback e], sent1, 1)
                              | (out, sent1, None) \<Rightarrow>
                                  (UsedService (service_type svc) # out, sent1, 0))))))"

section \<open>Vocabulary of the statements\<close>

subsection \<open>A mapping at some depth of a tree\<close>





subsection \<open>The service the specification asks for\<close>

text \<open>
  The specification's resolver, in its words: the first fragment that matches any exposed
  name, and then the first name that contains it; nothing when no fragment matches.
\<close>

definition spec_resolve :: "string list \<Rightarrow> string list \<Rightarrow> string option" where
  "spec_resolve F S =
     (case find (\<lambda>frag. list_ex (frag_in frag) S) F of
        None \<Rightarrow> None
      | Some frag \<Rightarrow> find (frag_in frag) S)"

definition buildable :: "gateway \<Rightarrow> string \<Rightarrow> bool" where
  "buildable fc svcname = (FritzService fc svcname \<noteq> None)"

subsection \<open>Read calls, time stamps, reports and close calls\<close>

definition no_args :: "string list \<Rightarrow> call list" where
  "no_args acts = map (\<lambda>act. (act, [])) acts"

definition resolved_ts :: "strptime \<Rightarrow> conn \<Rightarrow> int option" where
  "resolved_ts strp c = parse_time_str strp (last_field time_fields c)"

text \<open>The age that the code computes for a time stamp reaches the threshold.\<close>

definition old_enough :: "float_sub \<Rightarrow> rat \<Rightarrow> int \<Rightarrow> int \<Rightarrow> bool" where
  "old_enough fsub now threshold ts =
     (case fsub now ts of None \<Rightarrow> False | Some age \<Rightarrow> float_ge age threshold)"

definition is_stale :: "strptime \<Rightarrow> float_sub \<Rightarrow> rat \<Rightarrow> int \<Rightarrow> conn \<Rightarrow> bool" where
  "is_stale strp fsub now threshold c =
     (case resolved_ts strp c of
        None \<Rightarrow> False
      | Some ts \<Rightarrow> old_enough fsub now threshold ts)"

text \<open>The whole seconds that the code makes of the age it computes.\<close>

definition computed_age :: "float_sub \<Rightarrow> rat \<Rightarrow> int \<Rightarrow> int option" where
  "computed_age fsub now ts = (case fsub now ts of None \<Rightarrow> None | Some age \<Rightarrow> int_of_float age)"

text \<open>The subtraction is exact at a clock reading and a time stamp.\<close>

definition exact_at :: "float_sub \<Rightarrow> rat \<Rightarrow> int \<Rightarrow> bool" where
  "exact_at fsub now ts = (fsub now ts = Some (Fin (now - of_int ts)))"

text \<open>The first exception that showing the dates of a stale list raises, if any.\<close>

fun render_error :: "fromtimestamp \<Rightarrow> stale list \<Rightarrow> error option" where
  "render_error fromts [] = None"
| "render_error fromts (k # rest) =
     (case fromts (fst (snd k)) of
        Some e \<Rightarrow> Some e
      | None \<Rightarrow> render_error fromts rest)"

definition shown :: "fromtimestamp \<Rightarrow> stale \<Rightarrow> bool" where
  "shown fromts k = (fromts (fst (snd k)) = None)"

text \<open>The line printed after the close attempt of one connection.\<close>

definition outcome_line :: "string option \<Rightarrow> line" where
  "outcome_line r = (case r of None \<Rightarrow> CouldNotClose | Some action \<Rightarrow> Executed action)"

definition report_of :: "stale \<Rightarrow> line" where
  "report_of k =
     (case k of (c, ts, age) \<Rightarrow> Report (get_remote c) (get_port c) (get_connid c) ts age)"

text \<open>The close actions that the service declares, and the calls they are tried with.\<close>

definition applicable :: "service \<Rightarrow> string list \<Rightarrow> string list" where
  "applicable svc acts = filter (declared svc) acts"

definition calls_of :: "service \<Rightarrow> pyval \<Rightarrow> pyval \<Rightarrow> pyval \<Rightarrow> string list \<Rightarrow> call list" where
  "calls_of svc connid remote port acts =
     map (\<lambda>action. (action, build_args svc action connid remote port)) acts"

text \<open>The call of \<open>action\<close> raises when the actions \<open>before\<close> were tried ahead of it.\<close>

definition fails ::
  "service \<Rightarrow> pyval \<Rightarrow> pyval \<Rightarrow> pyval \<Rightarrow> call list \<Rightarrow> string list \<Rightarrow> string \<Rightarrow> bool" where
  "fails svc connid remote port sent before action =
     (call_action svc (sent @ calls_of svc connid remote port before) action
        (build_args svc action connid remote port) = None)"

text \<open>
  The identifier and the binding in the specification's words: the first of the fields
  ConnectionID, Id, ID that is present, bound to the first declared name.
\<close>

definition spec_connid :: "conn \<Rightarrow> pyval" where
  "spec_connid c =
     (case find (has_key c) [''ConnectionID'', ''Id'', ''ID''] of
        None \<Rightarrow> PNone
      | Some k \<Rightarrow> dict_get c k)"

definition spec_args :: "string list \<Rightarrow> pyval \<Rightarrow> kwargs" where
  "spec_args params connid =
     (case find (\<lambda>key. key \<in> set params) id_keys of
        None \<Rightarrow> [(''ConnectionID'', connid)]
      | Some key \<Rightarrow> [(key, connid)])"

section \<open>Example gateways\<close>

text \<open>
  A device whose service answers \<^verbatim>\<open>GetConnectionList\<close> with one connection last active
  at second 1000 and accepts \<^verbatim>\<open>DeleteConnection\<close>, which declares the parameter
  \<^verbatim>\<open>ConnectionID\<close>.
\<close>

definition demo_conn :: conn where
  "demo_conn = [(''ConnectionID'', PStr ''1''), (''RemoteHost'', PStr ''1.2.3.4''),
                (''RemotePort'', PStr ''80''), (''LastActivity'', PStr ''1000'')]"

definition demo_result :: pyval where
  "demo_result = PDict [(''ConnectionList'', PList [PDict demo_conn])]"

definition demo_svc :: service where
  "demo_svc =
     \<lparr>service_type = ''WANIPConnection1'',
      actions = [(''GetConnectionList'', []), (''DeleteConnection'', [''ConnectionID''])],
      call_action = (\<lambda>sent action args.
        if action = ''GetConnectionList'' then Some demo_result
        else if action = ''DeleteConnection'' then Some (PDict [])
        else None)\<rparr>"

definition demo_fc :: gateway where
  "demo_fc =
     \<lparr>services = [''DeviceInfo1'', ''WANIPConnection1''],
      FritzService = (\<lambda>svcname. if svcname = ''WANIPConnection1'' then Some demo_svc else None)\<rparr>"

text \<open>A device with two matching services, where the handle of the first cannot be built.\<close>

definition flaky_fc :: gateway where
  "flaky_fc =
     \<lparr>services = [''WANIPConnection1'', ''WANIPConnection2''],
      FritzService = (\<lambda>svcname.
        if svcname = ''WANIPConnection2'' then Some (demo_svc\<lparr>service_type := svcname\<rparr>)
        else None)\<rparr>"

text \<open>
  A service that declares two close actions; the first one raises, the second one
  declares both \<^verbatim>\<open>ConnectionID\<close> and \<^verbatim>\<open>ID\<close>.
\<close>

definition stubborn_svc :: service where
  "stubborn_svc =
     \<lparr>service_type = ''WANPPPConnection1'',
      actions = [(''DeleteConnection'', []), (''ForceCloseConnection'', [''ID'', ''ConnectionID''])],
      call_action = (\<lambda>sent action args.
        if action = ''ForceCloseConnection'' then Some (PDict []) else None)\<rparr>"

text \<open>A service on which every call raises.\<close>

definition dead_svc :: service where
  "dead_svc =
     \<lparr>service_type = ''DeviceInfo1'',
      actions = [(''DeleteConnection'', [''ConnectionID''])],
      call_action = (\<lambda>sent action args. None)\<rparr>"

text \<open>A machine on which no date format is understood.\<close>

definition no_strptime :: strptime where
  "no_strptime s f = None"

text \<open>
  A subtraction that gives what the 64-bit floating-point numbers give at the inputs of
  the examples: it raises for a time stamp of \<open>2 ^ 1024\<close> or more in size; it converts
  \<open>2 ^ 53 + 1\<close>, which is no floating-point number, to \<open>2 ^ 53\<close>; at the clock reading
  \<open>1700000000 + 4194303 / 4194304\<close> and the time stamp \<open>- 1700000000\<close> the exact
  difference lies half way between two floating-point numbers and is rounded up to
  \<open>3400000001\<close>. Elsewhere it is the exact difference.
\<close>

definition sub64 :: float_sub where
  "sub64 now ts =
     (if 2 ^ 1024 \<le> \<bar>ts\<bar> then None
      else if ts = 9007199254740993 then Some (Fin (now - 9007199254740992))
      else if now = 1700000000 + 4194303 / 4194304 \<and> ts = - 1700000000
        then Some (Fin 3400000001)
      else Some (Fin (now - of_int ts)))"

text \<open>
  A machine that shows the dates of the years 1 to 9999 and raises \<^verbatim>\<open>ValueError\<close> for
  a time stamp before or after them.
\<close>

definition years_1_to_9999 :: fromtimestamp where
  "years_1_to_9999 ts =
     (if ts < - 62135510400 \<or> 253402300799 < ts then Some ValueError else None)"

text \<open>A record last active long before the year 1.\<close>

definition ancient_conn :: conn where
  "ancient_conn = [(''ConnectionID'', PStr ''9''), (''LastActivity'', PStr ''-100000000000'')]"

text \<open>A record whose first time field present cannot be parsed, while a later one could.\<close>

definition odd_conn :: conn where
  "odd_conn = [(''Time'', PStr ''5''), (''LastActive'', PStr ''not-a-date'')]"

text \<open>A record whose keys are hint keys written in small letters.\<close>

definition small_conn :: conn where
  "small_conn = [(''remotehost'', PStr ''1.2.3.4''), (''lastactivity'', PStr ''1000'')]"

text \<open>A service that declares no action and answers every call with the same list.\<close>

definition echo_svc :: service where
  "echo_svc =
     \<lparr>service_type = ''ConnectionManager1'',
      actions = [],
      call_action = (\<lambda>sent action args. Some demo_result)\<rparr>"

text \<open>A record whose ConnectionID is present and empty.\<close>

definition blank_conn :: conn where
  "blank_conn = [(''ConnectionID'', PStr []), (''Id'', PStr ''7''), (''LastActivity'', PInt 0)]"

text \<open>A service that answers with a record last active before the year 1 and a recent one.\<close>

definition ancient_svc :: service where
  "ancient_svc =
     \<lparr>service_type = ''WANIPConnection1'',
      actions = [(''GetConnectionList'', []), (''DeleteConnection'', [''ConnectionID''])],
      call_action = (\<lambda>sent action args.
        if action = ''GetConnectionList'' then Some (PList [PDict ancient_conn, PDict demo_conn])
        else if action = ''DeleteConnection'' then Some (PDict [])
        else None)\<rparr>"

definition ancient_fc :: gateway where
  "ancient_fc =
     \<lparr>services = [''WANIPConnection1''],
      FritzService = (\<lambda>svcname. Some ancient_svc)\<rparr>"

section \<open>Properties of the extraction\<close>


lemma same_walk: "find_conn_nodes2 t = find_conn_nodes t"
  by (induction t rule: find_conn_nodes.induct) (auto cong: map_cong)



lemma found_hinted: "r \<in> set (find_conn_nodes t) \<Longrightarrow> hinted r"
  by (induction t rule: find_conn_nodes.induct) (auto split: if_splits)




section \<open>Properties of the staleness evaluation\<close>

lemma stale_loop_acc:
  "stale_loop strp fsub now threshold cs acc =
     (acc @ fst (stale_loop strp fsub now threshold cs []),
      snd (stale_loop strp fsub now threshold cs []))"
proof (induction cs arbitrary: acc)
  case Nil
  then show ?case by simp
next
  case (Cons c cs)
  show ?case
    using Cons.IH [of acc] Cons.IH [of "acc @ [(c, the (parse_time_str strp (last_field time_fields c)),
        the (int_of_float (the (fsub now (the (parse_time_str strp (last_field time_fields c)))))))]"]
      Cons.IH [of "[(c, the (parse_time_str strp (last_field time_fields c)),
        the (int_of_float (the (fsub now (the (parse_time_str strp (last_field time_fields c)))))))]"]
    by (auto split: option.splits)
qed

lemma find_stale_Nil: "find_stale strp fsub now threshold [] = ([], None)"
  by (simp add: find_stale_def)

lemma find_stale_Cons:
  "find_stale strp fsub now threshold (c # cs) =
     (case resolved_ts strp c of
        None \<Rightarrow> find_stale strp fsub now threshold cs
      | Some ts \<Rightarrow>
          (case fsub now ts of
             None \<Rightarrow> ([], Some OverflowError)
           | Some age \<Rightarrow>
               if float_ge age threshold then
                 (case int_of_float age of
                    None \<Rightarrow> ([], Some OverflowError)
                  | Some whole \<Rightarrow>
                      ((c, ts, whole) # fst (find_stale strp fsub now threshold cs),
                       snd (find_stale strp fsub now threshold cs)))
               else find_stale strp fsub now threshold cs))"
proof -
  have acc: "\<And>k. stale_loop strp fsub now threshold cs [k] =
      (k # fst (stale_loop strp fsub now threshold cs []),
       snd (stale_loop strp fsub now threshold cs []))"
  proof -
    fix k
    show "stale_loop strp fsub now threshold cs [k] =
      (k # fst (stale_loop strp fsub now threshold cs []),
       snd (stale_loop strp fsub now threshold cs []))"
      using stale_loop_acc [of strp fsub now threshold cs "[k]"] by simp
  qed
  show ?thesis
    by (auto simp: find_stale_def resolved_ts_def acc split: option.splits)
qed

lemma find_stale_sound:
  "(c, ts, age) \<in> set (fst (find_stale strp fsub now threshold cs)) \<Longrightarrow>
     c \<in> set cs \<and> resolved_ts strp c = Some ts \<and> old_enough fsub now threshold ts
     \<and> computed_age fsub now ts = Some age"
proof (induction cs)
  case Nil
  then show ?case by (simp add: find_stale_Nil)
next
  case (Cons d cs)
  then show ?case
    by (auto simp: find_stale_Cons old_enough_def computed_age_def split: option.splits if_splits)
qed

lemma find_stale_complete:
  "snd (find_stale strp fsub now threshold cs) = None \<Longrightarrow> c \<in> set cs \<Longrightarrow>
   resolved_ts strp c = Some ts \<Longrightarrow> old_enough fsub now threshold ts \<Longrightarrow>
   computed_age fsub now ts = Some age \<Longrightarrow>
     (c, ts, age) \<in> set (fst (find_stale strp fsub now threshold cs))"
proof (induction cs)
  case Nil
  then show ?case by simp
next
  case (Cons d cs)
  then show ?case
    by (auto simp: find_stale_Cons old_enough_def computed_age_def split: option.splits if_splits)
qed

lemma find_stale_order:
  "snd (find_stale strp fsub now threshold cs) = None \<Longrightarrow>
     map fst (fst (find_stale strp fsub now threshold cs))
       = filter (is_stale strp fsub now threshold) cs"
proof (induction cs)
  case Nil
  then show ?case by (simp add: find_stale_Nil)
next
  case (Cons d cs)
  then show ?case
    by (auto simp: find_stale_Cons is_stale_def old_enough_def split: option.splits if_splits)
qed

lemma find_stale_prefix:
  "prefix (map fst (fst (find_stale strp fsub now threshold cs)))
          (filter (is_stale strp fsub now threshold) cs)"
proof (induction cs)
  case Nil
  then show ?case by (simp add: find_stale_Nil)
next
  case (Cons d cs)
  then show ?case
    by (auto simp: find_stale_Cons is_stale_def old_enough_def split: option.splits if_splits)
qed

lemma py_trunc_int: "py_trunc (of_int T - of_int ts) = T - ts"
proof -
  have "(of_int T - of_int ts :: rat) = of_int (T - ts)" by simp
  then show ?thesis unfolding py_trunc_def by (simp only: floor_of_int ceiling_of_int if_cancel)
qed

lemma exact_age:
  "exact_at fsub now ts \<Longrightarrow>
     old_enough fsub now threshold ts = (of_int threshold \<le> now - of_int ts)
     \<and> computed_age fsub now ts = Some (py_trunc (now - of_int ts))"
  by (simp add: exact_at_def old_enough_def computed_age_def)

lemma stale_example:
  assumes "exact_at fsub (of_int T) (T - 100000)"
  shows "find_stale strp fsub (of_int T) 3600 [[(''LastActivity'', PInt (T - 100000))]]
     = ([([(''LastActivity'', PInt (T - 100000))], T - 100000, 100000)], None)"
proof -
  have l: "last_field time_fields [(''LastActivity'', PInt (T - 100000))] = PInt (T - 100000)"
    by (simp add: time_fields_def has_key_def dict_get_def)
  have r: "resolved_ts strp [(''LastActivity'', PInt (T - 100000))] = Some (T - 100000)"
    by (simp add: resolved_ts_def l parse_time_str_def)
  have f: "fsub (of_int T) (T - 100000) = Some (Fin 100000)"
    using assms by (simp add: exact_at_def)
  have t: "py_trunc 100000 = 100000"
    by (simp add: py_trunc_def)
  show ?thesis
    by (simp add: find_stale_Cons find_stale_Nil r f t)
qed

text \<open>
  Claim C5, as the code has it. The age is computed in floating-point numbers. In a run
  that no exception ends, a record whose time stamp \<open>ts\<close> was resolved and parsed is in the
  stale list exactly when the computed age reaches the threshold, and it is there with that
  time stamp and the whole seconds of the computed age; the stale records are the input
  records that qualify, in the order of the input. In any run the entries of the list are
  such records, in the order of the input. Where the subtraction is exact the test is
  \<open>now - ts \<ge> threshold\<close> and the age is \<open>now - ts\<close> cut to a whole number, which for
  a clock reading \<open>T\<close> without a fraction is \<open>T - ts\<close>: with the clock at \<open>T\<close> and the
  threshold 3600, a record last active at \<open>T - 100000\<close> is stale with age 100000.
\<close>

theorem C5_stale_iff_age_reaches_threshold:
  "(snd (find_stale strp fsub now threshold cs) = None \<longrightarrow>
      ((c, ts, age) \<in> set (fst (find_stale strp fsub now threshold cs)) \<longleftrightarrow>
         c \<in> set cs \<and> resolved_ts strp c = Some ts \<and> old_enough fsub now threshold ts
         \<and> computed_age fsub now ts = Some age)
      \<and> map fst (fst (find_stale strp fsub now threshold cs))
          = filter (is_stale strp fsub now threshold) cs)
   \<and> ((c, ts, age) \<in> set (fst (find_stale strp fsub now threshold cs)) \<longrightarrow>
        c \<in> set cs \<and> resolved_ts strp c = Some ts \<and> old_enough fsub now threshold ts
        \<and> computed_age fsub now ts = Some age)
   \<and> prefix (map fst (fst (find_stale strp fsub now threshold cs)))
             (filter (is_stale strp fsub now threshold) cs)
   \<and> (exact_at fsub now ts \<longrightarrow>
        old_enough fsub now threshold ts = (of_int threshold \<le> now - of_int ts)
        \<and> computed_age fsub now ts = Some (py_trunc (now - of_int ts)))
   \<and> py_trunc (of_int T - of_int t) = T - t
   \<and> (exact_at fsub (of_int T) (T - 100000) \<longrightarrow>
        find_stale strp fsub (of_int T) 3600 [[(''LastActivity'', PInt (T - 100000))]]
          = ([([(''LastActivity'', PInt (T - 100000))], T - 100000, 100000)], None))"
proof -
  have 1: "snd (find_stale strp fsub now threshold cs) = None \<longrightarrow>
      ((c, ts, age) \<in> set (fst (find_stale strp fsub now threshold cs)) \<longleftrightarrow>
         c \<in> set cs \<and> resolved_ts strp c = Some ts \<and> old_enough fsub now threshold ts
         \<and> computed_age fsub now ts = Some age)
      \<and> map fst (fst (find_stale strp fsub now threshold cs))
          = filter (is_stale strp fsub now threshold) cs"
    using find_stale_sound [of c ts age strp fsub now threshold cs]
      find_stale_complete [of strp fsub now threshold cs c ts age]
      find_stale_order [of strp fsub now threshold cs]
    by blast
  have 2: "(c, ts, age) \<in> set (fst (find_stale strp fsub now threshold cs)) \<longrightarrow>
        c \<in> set cs \<and> resolved_ts strp c = Some ts \<and> old_enough fsub now threshold ts
        \<and> computed_age fsub now ts = Some age"
    using find_stale_sound by blast
  have 4: "exact_at fsub now ts \<longrightarrow>
        old_enough fsub now threshold ts = (of_int threshold \<le> now - of_int ts)
        \<and> computed_age fsub now ts = Some (py_trunc (now - of_int ts))"
    using exact_age by blast
  have 6: "exact_at fsub (of_int T) (T - 100000) \<longrightarrow>
        find_stale strp fsub (of_int T) 3600 [[(''LastActivity'', PInt (T - 100000))]]
          = ([([(''LastActivity'', PInt (T - 100000))], T - 100000, 100000)], None)"
    using stale_example by blast
  show ?thesis
    using 1 2 4 6 find_stale_prefix [of strp fsub now threshold cs] py_trunc_int [of T t]
    by (simp only: simp_thms)
qed

lemma demo_ts: "resolved_ts no_strptime demo_conn = Some 1000"
  by code_simp

lemma demo_sub:
  "exact_at sub64 101000 1000 \<and> snd (find_stale no_strptime sub64 101000 3600 [demo_conn]) = None"
  by code_simp

theorem C5_witness:
  "(demo_conn, 1000, 100000) \<in> set (fst (find_stale no_strptime sub64 101000 3600 [demo_conn]))
   \<and> map fst (fst (find_stale no_strptime sub64 101000 3600 [demo_conn])) = [demo_conn]
   \<and> find_stale no_strptime sub64 101000 3600 [[(''LastActivity'', PInt 1000)]]
       = ([([(''LastActivity'', PInt 1000)], 1000, 100000)], None)"
proof -
  note t = C5_stale_iff_age_reaches_threshold [where c = demo_conn and ts = 1000
      and age = 100000 and strp = no_strptime and fsub = sub64 and now = 101000
      and threshold = 3600 and cs = "[demo_conn]" and T = 101000 and t = 0]
  have e: "old_enough sub64 101000 3600 1000 \<and> computed_age sub64 101000 1000 = Some 100000"
    using t demo_sub by (simp add: py_trunc_def)
  have s: "is_stale no_strptime sub64 101000 3600 demo_conn"
    using e by (simp add: is_stale_def demo_ts)
  have x: "find_stale no_strptime sub64 101000 3600 [[(''LastActivity'', PInt 1000)]]
       = ([([(''LastActivity'', PInt 1000)], 1000, 100000)], None)"
    using t demo_sub by simp
  show ?thesis
    using t demo_sub demo_ts e s x by simp
qed

text \<open>
  The claim as stated fails where the floating-point subtraction is not exact. At the
  clock reading 9007199254744592 a record last active at 9007199254740993 is stale for the
  threshold 3600, with age 3600, while \<open>now - ts\<close> is 3599. At the clock reading
  \<open>1700000000 + 4194303 / 4194304\<close> a record last active at \<open>- 1700000000\<close> gets the age
  3400000001, while \<open>now - ts\<close> cut to a whole number is 3400000000.
\<close>

theorem C5_counterexample:
  "find_stale no_strptime sub64 9007199254744592 3600
       [[(''LastActivity'', PInt 9007199254740993)]]
     = ([([(''LastActivity'', PInt 9007199254740993)], 9007199254740993, 3600)], None)
   \<and> \<not> (of_int 3600 \<le> (9007199254744592 :: rat) - of_int 9007199254740993)
   \<and> find_stale no_strptime sub64 (1700000000 + 4194303 / 4194304) 86400
       [[(''LastActivity'', PInt (- 1700000000))]]
     = ([([(''LastActivity'', PInt (- 1700000000))], - 1700000000, 3400000001)], None)
   \<and> py_trunc ((1700000000 + 4194303 / 4194304) - of_int (- 1700000000)) = 3400000000"
  by code_simp

lemma last_field_first:
  "\<forall>g \<in> set pre. \<not> has_key c g \<Longrightarrow> has_key c f
   \<Longrightarrow> last_field (pre @ f # post) c = dict_get c f"
  by (induction pre) auto

lemma last_field_absent:
  "\<forall>g \<in> set fs. \<not> has_key c g \<Longrightarrow> last_field fs c = PNone"
  by (induction fs) auto

lemma try_fmts_find:
  "try_fmts strp s fs =
     (case find (\<lambda>f. strp s f \<noteq> None) fs of None \<Rightarrow> None | Some f \<Rightarrow> strp s f)"
  by (induction fs) (auto split: option.splits)

lemma try_fmts_None: "\<forall>f \<in> set fs. strp s f = None \<Longrightarrow> try_fmts strp s fs = None"
  by (induction fs) auto

lemma parse_order:
  "parse_time_str strp s =
     (if s = PNone then None
      else case py_int s of
             Some t \<Rightarrow> Some t
           | None \<Rightarrow> (case find (\<lambda>f. strp s f \<noteq> None) fmts of
                        None \<Rightarrow> None
                      | Some f \<Rightarrow> strp s f))"
  unfolding parse_time_str_def try_fmts_find by (rule refl)

lemma unparsed_None:
  "py_int s = None \<Longrightarrow> \<forall>f \<in> set fmts. strp s f = None \<Longrightarrow> parse_time_str strp s = None"
  by (simp add: parse_time_str_def try_fmts_None)

lemma unresolved_not_stale:
  "resolved_ts strp c = None \<Longrightarrow>
     (c, ts, age) \<notin> set (fst (find_stale strp fsub now threshold cs))"
  using find_stale_sound [of c ts age strp fsub now threshold cs] by auto

lemma not_a_date: "py_int (PStr ''not-a-date'') = None"
  by code_simp

text \<open>
  Claim C6. The value used is that of the first field present among LastActivity,
  LastActive, LastSeen, Time, Timestamp. A record with none of these fields, and a record
  whose chosen value is neither an integer for \<^verbatim>\<open>int\<close> nor accepted under one of the
  three date formats, is not in the stale list, whatever the clock, the threshold and the
  floating-point arithmetic, and whether or not the run ends early. A value other than
  \<^verbatim>\<open>None\<close> is tried as an integer first and then under the formats in their order. A
  record with LastActivity "not-a-date" gives no stale entry and no exception.
\<close>

theorem C6_unresolved_or_unparsed_is_excluded:
  "((\<forall>g \<in> set pre. \<not> has_key c g) \<and> has_key c f \<and> time_fields = pre @ f # post
      \<longrightarrow> last_field time_fields c = dict_get c f)
   \<and> ((\<forall>g \<in> set time_fields. \<not> has_key c g)
      \<longrightarrow> (c, ts, age) \<notin> set (fst (find_stale strp fsub now threshold cs)))
   \<and> (py_int (last_field time_fields c) = None
        \<and> (\<forall>f \<in> set fmts. strp (last_field time_fields c) f = None)
      \<longrightarrow> (c, ts, age) \<notin> set (fst (find_stale strp fsub now threshold cs)))
   \<and> parse_time_str strp s =
        (if s = PNone then None
         else case py_int s of
                Some t \<Rightarrow> Some t
              | None \<Rightarrow> (case find (\<lambda>f. strp s f \<noteq> None) fmts of
                           None \<Rightarrow> None
                         | Some f \<Rightarrow> strp s f))
   \<and> ((\<forall>f \<in> set fmts. strp (PStr ''not-a-date'') f = None)
      \<longrightarrow> find_stale strp fsub now threshold [[(''LastActivity'', PStr ''not-a-date'')]]
            = ([], None))"
proof -
  have 1: "(\<forall>g \<in> set pre. \<not> has_key c g) \<and> has_key c f \<and> time_fields = pre @ f # post
      \<longrightarrow> last_field time_fields c = dict_get c f"
    using last_field_first [of pre c f post] by auto
  have 2: "(\<forall>g \<in> set time_fields. \<not> has_key c g)
      \<longrightarrow> (c, ts, age) \<notin> set (fst (find_stale strp fsub now threshold cs))"
  proof
    assume "\<forall>g \<in> set time_fields. \<not> has_key c g"
    then have "last_field time_fields c = PNone" by (rule last_field_absent)
    then have "resolved_ts strp c = None" by (simp add: resolved_ts_def parse_time_str_def)
    then show "(c, ts, age) \<notin> set (fst (find_stale strp fsub now threshold cs))"
      by (rule unresolved_not_stale)
  qed
  have 3: "py_int (last_field time_fields c) = None
        \<and> (\<forall>f \<in> set fmts. strp (last_field time_fields c) f = None)
      \<longrightarrow> (c, ts, age) \<notin> set (fst (find_stale strp fsub now threshold cs))"
  proof
    assume a: "py_int (last_field time_fields c) = None
        \<and> (\<forall>f \<in> set fmts. strp (last_field time_fields c) f = None)"
    then have "resolved_ts strp c = None"
      unfolding resolved_ts_def by (intro unparsed_None) auto
    then show "(c, ts, age) \<notin> set (fst (find_stale strp fsub now threshold cs))"
      by (rule unresolved_not_stale)
  qed
  have 5: "(\<forall>f \<in> set fmts. strp (PStr ''not-a-date'') f = None)
      \<longrightarrow> find_stale strp fsub now threshold [[(''LastActivity'', PStr ''not-a-date'')]]
            = ([], None)"
  proof
    assume a: "\<forall>f \<in> set fmts. strp (PStr ''not-a-date'') f = None"
    have l: "last_field time_fields [(''LastActivity'', PStr ''not-a-date'')] = PStr ''not-a-date''"
      by (simp add: time_fields_def has_key_def dict_get_def)
    have "parse_time_str strp (PStr ''not-a-date'') = None"
      using not_a_date a by (rule unparsed_None)
    then have "resolved_ts strp [(''LastActivity'', PStr ''not-a-date'')] = None"
      by (simp add: resolved_ts_def l)
    then show "find_stale strp fsub now threshold [[(''LastActivity'', PStr ''not-a-date'')]]
            = ([], None)"
      by (simp add: find_stale_Cons find_stale_Nil)
  qed
  show ?thesis using 1 2 3 5 parse_order [of strp s] by (simp only: simp_thms)
qed

lemma odd_keys:
  "\<not> has_key odd_conn ''LastActivity'' \<and> has_key odd_conn ''LastActive''
   \<and> time_fields = [''LastActivity''] @ ''LastActive'' # [''LastSeen'', ''Time'', ''Timestamp'']
   \<and> dict_get odd_conn ''LastActive'' = PStr ''not-a-date''"
  by (simp add: odd_conn_def has_key_def time_fields_def dict_get_def)

theorem C6_witness:
  "last_field time_fields odd_conn = PStr ''not-a-date''
   \<and> (odd_conn, 5, 999999995) \<notin> set (fst (find_stale no_strptime sub64 1000000000 0 [odd_conn]))
   \<and> find_stale no_strptime sub64 1000000000 0 [[(''LastActivity'', PStr ''not-a-date'')]]
       = ([], None)"
proof -
  note t = C6_unresolved_or_unparsed_is_excluded [where c = odd_conn and pre = "[''LastActivity'']" and f = "''LastActive''"
      and post = "[''LastSeen'', ''Time'', ''Timestamp'']" and strp = no_strptime
      and fsub = sub64 and ts = 5 and age = 999999995 and now = 1000000000 and threshold = 0
      and cs = "[odd_conn]" and s = PNone]
  have l: "last_field time_fields odd_conn = PStr ''not-a-date''"
    using t odd_keys by simp
  show ?thesis
    using t l not_a_date by (simp add: no_strptime_def)
qed

section \<open>Exact field names\<close>

lemma not_found_unhinted:
  "\<not> hinted c \<Longrightarrow> c \<notin> set (find_conn_nodes t) \<and> c \<notin> set (find_conn_nodes2 t)"
  using found_hinted [of c t] by (auto simp: same_walk)

lemma map_of_named:
  "k \<in> A \<Longrightarrow> map_of (filter (\<lambda>kv. fst kv \<in> A) c) k = map_of c k"
  by (induction c) auto

lemma has_key_named:
  "k \<in> A \<Longrightarrow> has_key (filter (\<lambda>kv. fst kv \<in> A) c) k = has_key c k"
  by (auto simp: has_key_def)

lemma last_field_named:
  "set fs \<subseteq> A \<Longrightarrow> last_field fs (filter (\<lambda>kv. fst kv \<in> A) c) = last_field fs c"
  by (induction fs) (auto simp: has_key_named dict_get_def map_of_named)

lemma frag_in_lower:
  "lower frag = lower frag' \<Longrightarrow> lower svcname = lower svcname'
   \<Longrightarrow> frag_in frag svcname = frag_in frag' svcname'"
  by (simp add: frag_in_def)

text \<open>
  Claim C10. Field names are compared exactly. A dictionary none of whose keys is
  literally a hint key is never returned as a record, by either copy of the walk, for any
  tree; the time stamp is read only from entries named literally like one of the five time
  fields, so that a record without such an entry is never stale; the match of a fragment
  against a service name, in contrast, depends only on the two strings in small letters.
\<close>

theorem C10_field_names_match_exactly:
  "hinted c = (\<exists>k \<in> set (map fst c). k \<in> set hint_keys)
   \<and> (\<not> hinted c \<longrightarrow> c \<notin> set (find_conn_nodes t) \<and> c \<notin> set (find_conn_nodes2 t))
   \<and> last_field time_fields c
        = last_field time_fields (filter (\<lambda>kv. fst kv \<in> set time_fields) c)
   \<and> ((\<forall>k \<in> set (map fst c). k \<notin> set time_fields)
        \<longrightarrow> (c, ts, age) \<notin> set (fst (find_stale strp fsub now threshold cs)))
   \<and> (lower frag = lower frag' \<and> lower svcname = lower svcname'
        \<longrightarrow> frag_in frag svcname = frag_in frag' svcname')"
proof -
  have 1: "hinted c = (\<exists>k \<in> set (map fst c). k \<in> set hint_keys)"
    by (auto simp: hinted_def)
  have 2: "\<not> hinted c \<longrightarrow> c \<notin> set (find_conn_nodes t) \<and> c \<notin> set (find_conn_nodes2 t)"
    using not_found_unhinted by blast
  have 3: "last_field time_fields c
        = last_field time_fields (filter (\<lambda>kv. fst kv \<in> set time_fields) c)"
    by (simp add: last_field_named)
  have 4: "(\<forall>k \<in> set (map fst c). k \<notin> set time_fields)
        \<longrightarrow> (c, ts, age) \<notin> set (fst (find_stale strp fsub now threshold cs))"
  proof
    assume "\<forall>k \<in> set (map fst c). k \<notin> set time_fields"
    then have "\<forall>g \<in> set time_fields. \<not> has_key c g" by (auto simp: has_key_def)
    then have "last_field time_fields c = PNone" by (rule last_field_absent)
    then have "resolved_ts strp c = None" by (simp add: resolved_ts_def parse_time_str_def)
    then show "(c, ts, age) \<notin> set (fst (find_stale strp fsub now threshold cs))"
      by (rule unresolved_not_stale)
  qed
  have 5: "lower frag = lower frag' \<and> lower svcname = lower svcname'
        \<longrightarrow> frag_in frag svcname = frag_in frag' svcname'"
    using frag_in_lower by blast
  show ?thesis using 1 2 3 4 5 by (simp only: simp_thms)
qed

lemma small_keys:
  "lower ''RemoteHost'' = ''remotehost'' \<and> lower ''LastActivity'' = ''lastactivity''
   \<and> lower ''WANIPConnection'' = lower ''wanipconnection''
   \<and> lower ''wanipconnection1'' = lower ''WANIPConnection1''
   \<and> frag_in ''wanipconnection'' ''WANIPConnection1''"
  by code_simp

lemma small_unhinted: "\<not> hinted small_conn"
  by (simp add: hinted_def small_conn_def hint_keys_def)

lemma small_untimed: "\<forall>k \<in> set (map fst small_conn). k \<notin> set time_fields"
  by (simp add: small_conn_def time_fields_def)

theorem C10_witness:
  "\<not> hinted small_conn
   \<and> small_conn \<notin> set (find_conn_nodes (PList [PDict small_conn]))
   \<and> small_conn \<notin> set (find_conn_nodes2 (PList [PDict small_conn]))
   \<and> (small_conn, 1000, 100000) \<notin> set (fst (find_stale no_strptime sub64 101000 3600 [small_conn]))
   \<and> frag_in ''WANIPConnection'' ''wanipconnection1''"
  using C10_field_names_match_exactly [where c = small_conn and t = "PList [PDict small_conn]"
      and ts = 1000 and age = 100000 and strp = no_strptime and fsub = sub64 and now = 101000
      and threshold = 3600 and cs = "[small_conn]" and frag = "''WANIPConnection''"
      and frag' = "''wanipconnection''" and svcname = "''wanipconnection1''"
      and svcname' = "''WANIPConnection1''"]
    small_unhinted small_untimed small_keys
  by simp

section \<open>Properties of the service resolver\<close>

lemma find_SomeD: "find P xs = Some x \<Longrightarrow> x \<in> set xs \<and> P x"
  by (induction xs) (auto split: if_splits)

lemma try_names_find:
  "try_names fc frag S =
     (case find (frag_in frag) (filter (buildable fc) S) of
        None \<Rightarrow> None
      | Some n \<Rightarrow> FritzService fc n)"
  by (induction S) (auto simp: buildable_def split: option.splits)

lemma try_names_None:
  "try_names fc frag S = None \<longleftrightarrow> \<not> list_ex (frag_in frag) (filter (buildable fc) S)"
  by (induction S) (auto simp: buildable_def split: option.splits)

lemma try_service_spec:
  "try_service fc F =
     (case spec_resolve F (filter (buildable fc) (services fc)) of
        None \<Rightarrow> None
      | Some n \<Rightarrow> FritzService fc n)"
proof (induction F)
  case Nil
  then show ?case by (simp add: spec_resolve_def)
next
  case (Cons frag F)
  show ?case
  proof (cases "try_names fc frag (services fc)")
    case None
    then have "\<not> list_ex (frag_in frag) (filter (buildable fc) (services fc))"
      by (simp add: try_names_None)
    then show ?thesis using None Cons by (simp add: spec_resolve_def)
  next
    case (Some svc)
    then have ex: "list_ex (frag_in frag) (filter (buildable fc) (services fc))"
      using try_names_None[of fc frag "services fc"] by auto
    show ?thesis using Some ex by (simp add: spec_resolve_def try_names_find)
  qed
qed

lemma spec_resolve_None:
  "spec_resolve F S = None \<longleftrightarrow> \<not> (\<exists>frag \<in> set F. \<exists>n \<in> set S. frag_in frag n)"
  by (auto simp: spec_resolve_def find_None_iff list_ex_iff split: option.splits dest: find_Some_iff[THEN iffD1])

lemma spec_resolve_Some_buildable:
  "spec_resolve F (filter (buildable fc) S) = Some n \<Longrightarrow> FritzService fc n \<noteq> None"
proof -
  assume a: "spec_resolve F (filter (buildable fc) S) = Some n"
  then obtain frag where "find (frag_in frag) (filter (buildable fc) S) = Some n"
    by (auto simp: spec_resolve_def split: option.splits)
  then have "n \<in> set (filter (buildable fc) S)"
    using find_SomeD by fastforce
  then show ?thesis by (simp add: buildable_def)
qed

text \<open>
  Claim C3, as the code has it. A matching name whose handle cannot be built is passed
  over, so the resolver works on the exposed names whose handle can be built: it returns the
  handle of the first of them that contains, letter case ignored, the first fragment that
  any of them contains, and it returns nothing exactly when no fragment is contained in a
  name whose handle can be built. Where every handle can be built this is the first exposed
  name (in the order of the device) containing the first fragment that matches at all.
\<close>

theorem C3_first_buildable_match:
  "try_service fc F =
     (case spec_resolve F (filter (buildable fc) (services fc)) of
        None \<Rightarrow> None
      | Some n \<Rightarrow> FritzService fc n)
   \<and> (try_service fc F = None \<longleftrightarrow>
        \<not> (\<exists>frag \<in> set F. \<exists>n \<in> set (services fc). frag_in frag n \<and> buildable fc n))
   \<and> ((\<forall>n \<in> set (services fc). buildable fc n) \<longrightarrow>
        try_service fc F =
          (case spec_resolve F (services fc) of
             None \<Rightarrow> None
           | Some n \<Rightarrow> FritzService fc n))"
proof -
  have 1: "try_service fc F =
     (case spec_resolve F (filter (buildable fc) (services fc)) of
        None \<Rightarrow> None
      | Some n \<Rightarrow> FritzService fc n)" by (rule try_service_spec)
  have "try_service fc F = None \<longleftrightarrow> spec_resolve F (filter (buildable fc) (services fc)) = None"
    using spec_resolve_Some_buildable[of F fc "services fc"] by (auto simp: 1 split: option.splits)
  then have 2: "try_service fc F = None \<longleftrightarrow>
        \<not> (\<exists>frag \<in> set F. \<exists>n \<in> set (services fc). frag_in frag n \<and> buildable fc n)"
    by (auto simp: spec_resolve_None)
  have 3: "(\<forall>n \<in> set (services fc). buildable fc n) \<longrightarrow>
        try_service fc F =
          (case spec_resolve F (services fc) of
             None \<Rightarrow> None
           | Some n \<Rightarrow> FritzService fc n)"
  proof
    assume "\<forall>n \<in> set (services fc). buildable fc n"
    then have "filter (buildable fc) (services fc) = services fc" by simp
    then show "try_service fc F =
          (case spec_resolve F (services fc) of
             None \<Rightarrow> None
           | Some n \<Rightarrow> FritzService fc n)"
      using 1 by simp
  qed
  show ?thesis using 1 2 3 by blast
qed

lemma flaky_eval:
  "spec_resolve [''WANIPConnection''] (filter (buildable flaky_fc) (services flaky_fc))
       = Some ''WANIPConnection2''
   \<and> map_option service_type (FritzService flaky_fc ''WANIPConnection2'')
       = Some ''WANIPConnection2''"
  by code_simp

theorem C3_witness:
  "map_option service_type (try_service flaky_fc [''WANIPConnection''])
     = Some ''WANIPConnection2''"
  using C3_first_buildable_match [of flaky_fc "[''WANIPConnection'']"] flaky_eval
  by simp

text \<open>
  The claim as stated fails where a handle cannot be built: the first exposed name that
  contains the fragment is WANIPConnection1, and the resolver returns the handle of
  WANIPConnection2; and where no matching name can be built it returns nothing although a
  fragment matches an exposed name.
\<close>

theorem C3_counterexample:
  "spec_resolve [''WANIPConnection''] (services flaky_fc) = Some ''WANIPConnection1''
   \<and> map_option service_type (try_service flaky_fc [''WANIPConnection''])
       = Some ''WANIPConnection2''
   \<and> spec_resolve [''DeviceInfo''] (services demo_fc) = Some ''DeviceInfo1''
   \<and> map_option service_type (try_service demo_fc [''DeviceInfo'']) = None"
  by code_simp

section \<open>Properties of the collection\<close>

lemma collect_step:
  "collect svc (act # acts) sent connections =
     collect svc acts (sent @ [(act, [])])
       (connections @
          (case call_action svc sent act [] of None \<Rightarrow> [] | Some res \<Rightarrow> find_conn_nodes res))"
  by (simp add: same_walk split: option.splits)

text \<open>
  Claim C9. Every candidate is called once, in the order of the list and without
  arguments, whether the service declares it or not; a call that raises adds nothing and
  does not stop the loop; the records found in the answers are appended in the order of the
  candidates, and nothing is removed when two answers hold the same record. Candidate \<open>i\<close>
  is answered after the calls of the candidates before it.
\<close>

theorem C9_every_candidate_is_called:
  "collect svc acts sent connections =
     (connections @
        concat (map (\<lambda>i. case call_action svc (sent @ no_args (take i acts)) (acts ! i) [] of
                            None \<Rightarrow> []
                          | Some res \<Rightarrow> find_conn_nodes res)
                 [0..<length acts]),
      sent @ no_args acts)"
proof (induction acts arbitrary: sent connections)
  case Nil
  then show ?case by (simp add: no_args_def)
next
  case (Cons act acts)
  have shift: "[0..<length (act # acts)] = 0 # map Suc [0..<length acts]"
    by (simp add: upt_conv_Cons map_Suc_upt del: upt_Suc)
  show ?case
    unfolding collect_step Cons.IH shift
    by (simp add: no_args_def comp_def)
qed

lemma echo_eval:
  "(concat (map (\<lambda>i. case call_action echo_svc
                         (no_args (take i [''GetActiveConnections'', ''GetConnectionList'']))
                         ([''GetActiveConnections'', ''GetConnectionList''] ! i) [] of
                       None \<Rightarrow> []
                     | Some res \<Rightarrow> find_conn_nodes res)
            [0..<length [''GetActiveConnections'', ''GetConnectionList'']]),
    no_args [''GetActiveConnections'', ''GetConnectionList''])
   = ([demo_conn, demo_conn],
      [(''GetActiveConnections'', []), (''GetConnectionList'', [])])"
  by code_simp

lemma dead_eval:
  "(concat (map (\<lambda>i. case call_action dead_svc
                         (no_args (take i [''GetActiveConnections'', ''GetConnectionList'']))
                         ([''GetActiveConnections'', ''GetConnectionList''] ! i) [] of
                       None \<Rightarrow> []
                     | Some res \<Rightarrow> find_conn_nodes res)
            [0..<length [''GetActiveConnections'', ''GetConnectionList'']]),
    no_args [''GetActiveConnections'', ''GetConnectionList''])
   = ([], [(''GetActiveConnections'', []), (''GetConnectionList'', [])])"
  by code_simp

theorem C9_witness:
  "collect echo_svc [''GetActiveConnections'', ''GetConnectionList''] [] []
     = ([demo_conn, demo_conn], [(''GetActiveConnections'', []), (''GetConnectionList'', [])])
   \<and> collect dead_svc [''GetActiveConnections'', ''GetConnectionList''] [] []
     = ([], [(''GetActiveConnections'', []), (''GetConnectionList'', [])])"
  using C9_every_candidate_is_called [of echo_svc "[''GetActiveConnections'', ''GetConnectionList'']" "[]" "[]"]
    C9_every_candidate_is_called [of dead_svc "[''GetActiveConnections'', ''GetConnectionList'']" "[]" "[]"]
  by (simp only: echo_eval dead_eval append_Nil simp_thms)

section \<open>Properties of the deduplication\<close>

lemma conn_key_mset: "mset a = mset b \<Longrightarrow> conn_key a = conn_key b"
proof -
  assume "mset a = mset b"
  then have "mset (map (\<lambda>kv. (fst kv, py_str (snd kv))) a) = mset (map (\<lambda>kv. (fst kv, py_str (snd kv))) b)"
    by (metis mset_map)
  then show ?thesis
    unfolding conn_key_def by (intro properties_for_sort) simp_all
qed

lemma dict_eq_mset:
  "distinct (map fst a) \<Longrightarrow> distinct (map fst b) \<Longrightarrow> set a = set b \<Longrightarrow> mset a = mset b"
  by (simp add: distinct_map set_eq_iff_mset_eq_distinct)

lemma sorted_fst: "sorted (xs :: ('a::linorder \<times> 'b::linorder) list) \<Longrightarrow> sorted (map fst xs)"
  by (induction xs) (auto simp: less_eq_prod_def)

lemma conn_key_sorted: "sorted (map fst (conn_key c))"
  unfolding conn_key_def by (rule sorted_fst) simp

lemma dedup_loop_snoc:
  "dedup_loop (cs @ [c]) seen unique =
     (if conn_key c \<in> seen \<union> conn_key ` set cs then dedup_loop cs seen unique
      else dedup_loop cs seen unique @ [c])"
proof (induction cs arbitrary: seen unique)
  case Nil
  then show ?case by (simp add: Let_def)
next
  case (Cons d cs)
  show ?case by (auto simp: Let_def Cons.IH)
qed

lemma dedup_snoc:
  "dedup (cs @ [c]) = (if conn_key c \<in> conn_key ` set cs then dedup cs else dedup cs @ [c])"
  by (simp add: dedup_def dedup_loop_snoc)

lemma dedup_Nil: "dedup [] = []"
  by (simp add: dedup_def)

lemma dedup_set: "set (dedup cs) \<subseteq> set cs"
  by (induction cs rule: rev_induct) (auto simp: dedup_snoc dedup_Nil)

lemma dedup_keys: "conn_key ` set (dedup cs) = conn_key ` set cs"
  by (induction cs rule: rev_induct) (auto simp: dedup_snoc dedup_Nil)

lemma dedup_distinct: "distinct (map conn_key (dedup cs))"
proof (induction cs rule: rev_induct)
  case Nil
  then show ?case by (simp add: dedup_Nil)
next
  case (snoc c cs)
  then show ?case using dedup_keys[of cs] by (auto simp: dedup_snoc)
qed

lemma distinct_map_weaken:
  "distinct (map f xs) \<Longrightarrow> (\<And>x y. x \<in> set xs \<Longrightarrow> y \<in> set xs \<Longrightarrow> g x = g y \<Longrightarrow> f x = f y)
   \<Longrightarrow> distinct (map g xs)"
proof (induction xs)
  case Nil
  then show ?case by simp
next
  case (Cons a xs)
  have "g a \<notin> g ` set xs"
  proof
    assume "g a \<in> g ` set xs"
    then obtain y where y: "y \<in> set xs" "g a = g y" by auto
    then have "f a = f y" using Cons.prems(2)[of a y] by simp
    then show False using Cons.prems(1) y by auto
  qed
  moreover have "distinct (map g xs)"
    using Cons by auto
  ultimately show ?case by simp
qed

lemma dedup_distinct_mset: "distinct (map mset (dedup cs))"
  using dedup_distinct by (rule distinct_map_weaken) (rule conn_key_mset)

lemma dedup_distinct_set:
  assumes "\<forall>c \<in> set cs. distinct (map fst c)"
  shows "distinct (map set (dedup cs))"
  using dedup_distinct
proof (rule distinct_map_weaken)
  fix x y assume "x \<in> set (dedup cs)" "y \<in> set (dedup cs)" "set x = set y"
  then show "conn_key x = conn_key y"
    using assms dedup_set[of cs] by (intro conn_key_mset dict_eq_mset) auto
qed

lemma dedup_subseq: "subseq (dedup cs) cs"
  by (induction cs rule: rev_induct) (auto simp: dedup_snoc dedup_Nil subseq_append')

lemma conn_key_content: "mset (conn_key c) = mset (map (\<lambda>kv. (fst kv, py_str (snd kv))) c)"
  by (simp add: conn_key_def)

lemma conn_key_sorted_pairs: "sorted (conn_key c)"
  by (simp add: conn_key_def)

text \<open>
  Claim C4. The key of a record is its list of pairs of field name and \<^verbatim>\<open>str\<close> of the
  value, sorted, hence sorted by field name; two dictionaries with the same set of items
  have the same key in whatever order their fields come. The unique list is built by going
  through the input and appending a record exactly when no earlier record has its key: it
  is a subsequence of the input, its keys are pairwise different, and so are the contents of
  its records.
\<close>

theorem C4_dedup_keeps_first_of_each_key:
  "(distinct (map fst a) \<and> distinct (map fst b) \<and> set a = set b \<longrightarrow> conn_key a = conn_key b)
   \<and> mset (conn_key c) = mset (map (\<lambda>kv. (fst kv, py_str (snd kv))) c)
   \<and> sorted (conn_key c) \<and> sorted (map fst (conn_key c))
   \<and> dedup [] = []
   \<and> dedup (cs @ [c]) = (if conn_key c \<in> conn_key ` set cs then dedup cs else dedup cs @ [c])
   \<and> subseq (dedup cs) cs
   \<and> distinct (map conn_key (dedup cs))
   \<and> distinct (map mset (dedup cs))
   \<and> ((\<forall>r \<in> set cs. distinct (map fst r)) \<longrightarrow> distinct (map set (dedup cs)))"
proof -
  have 1: "distinct (map fst a) \<and> distinct (map fst b) \<and> set a = set b \<longrightarrow> conn_key a = conn_key b"
    using conn_key_mset dict_eq_mset by blast
  have 2: "(\<forall>r \<in> set cs. distinct (map fst r)) \<longrightarrow> distinct (map set (dedup cs))"
    using dedup_distinct_set by blast
  show ?thesis
    using 1 2 conn_key_content [of c] conn_key_sorted_pairs [of c] conn_key_sorted [of c]
      dedup_Nil dedup_snoc [of cs c] dedup_subseq [of cs] dedup_distinct [of cs]
      dedup_distinct_mset [of cs]
    by (simp only: simp_thms)
qed

theorem C4_witness:
  "conn_key [(''a'', PStr ''1''), (''b'', PStr ''2'')] = conn_key [(''b'', PStr ''2''), (''a'', PStr ''1'')]
   \<and> dedup [[(''a'', PStr ''1''), (''b'', PStr ''2'')], [(''b'', PStr ''2''), (''a'', PStr ''1'')],
             [(''a'', PStr ''1''), (''b'', PStr ''2'')]]
       = [[(''a'', PStr ''1''), (''b'', PStr ''2'')]]"
proof -
  have k: "conn_key [(''a'', PStr ''1''), (''b'', PStr ''2'')]
             = conn_key [(''b'', PStr ''2''), (''a'', PStr ''1'')]"
    using C4_dedup_keeps_first_of_each_key
      [where a = "[(''a'', PStr ''1''), (''b'', PStr ''2'')]"
         and b = "[(''b'', PStr ''2''), (''a'', PStr ''1'')]"]
    by auto
  show ?thesis
    by (simp add: dedup_def Let_def k)
qed

section \<open>Properties of the termination\<close>

lemma try_close_Some:
  "try_close svc acts connid remote port sent = (Some a, sent1) \<Longrightarrow>
     \<exists>pre post. applicable svc acts = pre @ a # post
       \<and> sent1 = sent @ calls_of svc connid remote port (pre @ [a])
       \<and> \<not> fails svc connid remote port sent pre a
       \<and> (\<forall>p b q. pre = p @ b # q \<longrightarrow> fails svc connid remote port sent p b)"
proof (induction acts arbitrary: sent)
  case Nil
  then show ?case by simp
next
  case (Cons x acts)
  show ?case
  proof (cases "declared svc x")
    case False
    then show ?thesis using Cons by (simp add: applicable_def)
  next
    case True
    let ?args = "build_args svc x connid remote port"
    show ?thesis
    proof (cases "call_action svc sent x ?args")
      case (Some res)
      then have "a = x" "sent1 = sent @ [(x, ?args)]"
        using Cons.prems True by (auto simp: Let_def)
      then have "applicable svc (x # acts) = [] @ a # applicable svc acts
          \<and> sent1 = sent @ calls_of svc connid remote port ([] @ [a])
          \<and> \<not> fails svc connid remote port sent [] a
          \<and> (\<forall>p b q. [] = p @ b # q \<longrightarrow> fails svc connid remote port sent p b)"
        using True Some by (simp add: applicable_def calls_of_def fails_def)
      then show ?thesis by blast
    next
      case None
      then have "try_close svc acts connid remote port (sent @ [(x, ?args)]) = (Some a, sent1)"
        using Cons.prems True by (simp add: Let_def)
      from Cons.IH[OF this] obtain pre post where
        p: "applicable svc acts = pre @ a # post"
           "sent1 = (sent @ [(x, ?args)]) @ calls_of svc connid remote port (pre @ [a])"
           "\<not> fails svc connid remote port (sent @ [(x, ?args)]) pre a"
           "\<forall>p b q. pre = p @ b # q \<longrightarrow> fails svc connid remote port (sent @ [(x, ?args)]) p b"
        by blast
      have shift: "\<And>p b. fails svc connid remote port sent (x # p) b
                     = fails svc connid remote port (sent @ [(x, ?args)]) p b"
        by (simp add: fails_def calls_of_def)
      have 1: "applicable svc (x # acts) = (x # pre) @ a # post"
        using True p(1) by (simp add: applicable_def)
      have 2: "sent1 = sent @ calls_of svc connid remote port ((x # pre) @ [a])"
        using p(2) by (simp add: calls_of_def)
      have 3: "\<not> fails svc connid remote port sent (x # pre) a"
        using p(3) shift by simp
      have 4: "\<forall>p b q. x # pre = p @ b # q \<longrightarrow> fails svc connid remote port sent p b"
      proof (intro allI impI)
        fix p b q assume e: "x # pre = p @ b # q"
        show "fails svc connid remote port sent p b"
        proof (cases p)
          case Nil
          then have "b = x" using e by simp
          then show ?thesis using Nil None by (simp add: fails_def calls_of_def)
        next
          case (Cons y p')
          then have "y = x" "pre = p' @ b # q" using e by auto
          then show ?thesis using p(4) shift Cons by simp
        qed
      qed
      show ?thesis using 1 2 3 4 by blast
    qed
  qed
qed

lemma try_close_None:
  "try_close svc acts connid remote port sent = (None, sent1) \<Longrightarrow>
     sent1 = sent @ calls_of svc connid remote port (applicable svc acts)
     \<and> (\<forall>p b q. applicable svc acts = p @ b # q \<longrightarrow> fails svc connid remote port sent p b)"
proof (induction acts arbitrary: sent)
  case Nil
  then show ?case by (simp add: applicable_def calls_of_def)
next
  case (Cons x acts)
  show ?case
  proof (cases "declared svc x")
    case False
    then show ?thesis using Cons by (simp add: applicable_def)
  next
    case True
    let ?args = "build_args svc x connid remote port"
    have None: "call_action svc sent x ?args = None"
      using Cons.prems True by (auto simp: Let_def split: option.splits)
    then have "try_close svc acts connid remote port (sent @ [(x, ?args)]) = (None, sent1)"
      using Cons.prems True by (simp add: Let_def)
    from Cons.IH[OF this] have
      p: "sent1 = (sent @ [(x, ?args)]) @ calls_of svc connid remote port (applicable svc acts)"
         "\<forall>p b q. applicable svc acts = p @ b # q \<longrightarrow> fails svc connid remote port (sent @ [(x, ?args)]) p b"
      by blast+
    have shift: "\<And>p b. fails svc connid remote port sent (x # p) b
                   = fails svc connid remote port (sent @ [(x, ?args)]) p b"
      by (simp add: fails_def calls_of_def)
    have 2: "sent1 = sent @ calls_of svc connid remote port (applicable svc (x # acts))"
      using p(1) True by (simp add: calls_of_def applicable_def)
    have 4: "\<forall>p b q. applicable svc (x # acts) = p @ b # q \<longrightarrow> fails svc connid remote port sent p b"
    proof (intro allI impI)
      fix p b q assume e: "applicable svc (x # acts) = p @ b # q"
      then have e': "x # applicable svc acts = p @ b # q" using True by (simp add: applicable_def)
      show "fails svc connid remote port sent p b"
      proof (cases p)
        case Nil
        then have "b = x" using e' by simp
        then show ?thesis using Nil None by (simp add: fails_def calls_of_def)
      next
        case (Cons y p')
        then have "y = x" "applicable svc acts = p' @ b # q" using e' by auto
        then show ?thesis using p(2) shift Cons by simp
      qed
    qed
    show ?thesis using 2 4 by blast
  qed
qed

lemma try_close_action:
  "try_close svc acts connid remote port sent = (Some a, sent1) \<Longrightarrow> a \<in> set (applicable svc acts)"
  using try_close_Some [of svc acts connid remote port sent a sent1] by auto

lemma kill_loop_dry:
  "kill_loop True fromts svc acts to_kill sent out
     = (out @ map report_of (takeWhile (shown fromts) to_kill), sent, render_error fromts to_kill)"
proof (induction to_kill arbitrary: out)
  case Nil
  then show ?case by simp
next
  case (Cons k to_kill)
  obtain c ts age where k: "k = (c, ts, age)" by (cases k) auto
  show ?case
    by (cases "fromts ts") (simp_all add: k Cons.IH shown_def report_of_def Let_def)
qed

lemma takeWhile_all: "(\<forall>x \<in> set xs. P x) \<Longrightarrow> takeWhile P xs = xs"
  by (induction xs) auto

lemma render_error_none: "(\<forall>k \<in> set to_kill. shown fromts k) \<Longrightarrow> render_error fromts to_kill = None"
  by (induction to_kill) (auto simp: shown_def)

lemma kill_loop_raise:
  "fromts ts = Some e \<Longrightarrow>
     kill_loop dry_run fromts svc acts ((c, ts, age) # rest) sent out = (out, sent, Some e)"
  by (simp add: Let_def)

lemma kill_loop_step:
  "fromts ts = None \<Longrightarrow>
     kill_loop False fromts svc acts ((c, ts, age) # rest) sent out
       = kill_loop False fromts svc acts rest
           (snd (try_close svc acts (get_connid c) (get_remote c) (get_port c) sent))
           (out @ [report_of (c, ts, age),
                   outcome_line (fst (try_close svc acts (get_connid c) (get_remote c)
                                        (get_port c) sent))])"
  by (cases "try_close svc acts (get_connid c) (get_remote c) (get_port c) sent")
     (auto simp: Let_def report_of_def outcome_line_def split: option.splits)

lemma kill_loop_error:
  "snd (snd (kill_loop dry_run fromts svc acts to_kill sent out)) = render_error fromts to_kill"
proof (induction to_kill arbitrary: sent out)
  case Nil
  then show ?case by simp
next
  case (Cons k to_kill)
  obtain c ts age where k: "k = (c, ts, age)" by (cases k) auto
  show ?case
  proof (cases "fromts ts")
    case (Some e)
    then show ?thesis by (simp add: k Let_def)
  next
    case None
    show ?thesis
    proof (cases dry_run)
      case True
      then show ?thesis
        using None Cons.IH [of sent "out @ [Report (get_remote c) (get_port c) (get_connid c) ts age]"]
        by (simp add: k Let_def)
    next
      case False
      have "kill_loop False fromts svc acts ((c, ts, age) # to_kill) sent out
          = kill_loop False fromts svc acts to_kill
              (snd (try_close svc acts (get_connid c) (get_remote c) (get_port c) sent))
              (out @ [report_of (c, ts, age),
                      outcome_line (fst (try_close svc acts (get_connid c) (get_remote c)
                                           (get_port c) sent))])"
        using None by (rule kill_loop_step)
      then have "snd (snd (kill_loop False fromts svc acts ((c, ts, age) # to_kill) sent out))
          = render_error fromts to_kill"
        using False
          Cons.IH [of "snd (try_close svc acts (get_connid c) (get_remote c) (get_port c) sent)"
            "out @ [report_of (c, ts, age),
                    outcome_line (fst (try_close svc acts (get_connid c) (get_remote c)
                                         (get_port c) sent))]"]
        by (simp only:)
      then show ?thesis
        using False None by (simp add: k del: kill_loop.simps)
    qed
  qed
qed

lemma kill_loop_live:
  "\<forall>k \<in> set to_kill. shown fromts k \<Longrightarrow>
   \<exists>outs. length outs = length to_kill
     \<and> (\<forall>r \<in> set outs. r = CouldNotClose \<or> (\<exists>a \<in> set (applicable svc acts). r = Executed a))
     \<and> fst (kill_loop False fromts svc acts to_kill sent out)
         = out @ concat (map (\<lambda>kr. [report_of (fst kr), snd kr]) (zip to_kill outs))"
proof (induction to_kill arbitrary: sent out)
  case Nil
  then show ?case by simp
next
  case (Cons k to_kill)
  obtain c ts age where k: "k = (c, ts, age)" by (cases k) auto
  have sh: "fromts ts = None" using Cons.prems by (simp add: k shown_def)
  define res where "res = fst (try_close svc acts (get_connid c) (get_remote c) (get_port c) sent)"
  define sent1 where "sent1 = snd (try_close svc acts (get_connid c) (get_remote c) (get_port c) sent)"
  define r where "r = outcome_line res"
  have step: "kill_loop False fromts svc acts (k # to_kill) sent out
                = kill_loop False fromts svc acts to_kill sent1 (out @ [report_of k, r])"
  proof -
    have "kill_loop False fromts svc acts ((c, ts, age) # to_kill) sent out
          = kill_loop False fromts svc acts to_kill
              (snd (try_close svc acts (get_connid c) (get_remote c) (get_port c) sent))
              (out @ [report_of (c, ts, age),
                      outcome_line (fst (try_close svc acts (get_connid c) (get_remote c)
                                           (get_port c) sent))])"
      using sh by (rule kill_loop_step)
    then show ?thesis by (simp add: k r_def res_def sent1_def)
  qed
  have t: "try_close svc acts (get_connid c) (get_remote c) (get_port c) sent = (res, sent1)"
    by (simp add: res_def sent1_def)
  have rok: "r = CouldNotClose \<or> (\<exists>a \<in> set (applicable svc acts). r = Executed a)"
    using t try_close_action by (cases res) (auto simp: r_def outcome_line_def)
  have "\<forall>k \<in> set to_kill. shown fromts k" using Cons.prems by simp
  from Cons.IH [OF this, of sent1 "out @ [report_of k, r]"] obtain outs where
    o: "length outs = length to_kill"
       "\<forall>r \<in> set outs. r = CouldNotClose \<or> (\<exists>a \<in> set (applicable svc acts). r = Executed a)"
       "fst (kill_loop False fromts svc acts to_kill sent1 (out @ [report_of k, r]))
         = (out @ [report_of k, r]) @ concat (map (\<lambda>kr. [report_of (fst kr), snd kr]) (zip to_kill outs))"
    by blast
  have "length (r # outs) = length (k # to_kill)
     \<and> (\<forall>x \<in> set (r # outs). x = CouldNotClose \<or> (\<exists>a \<in> set (applicable svc acts). x = Executed a))
     \<and> fst (kill_loop False fromts svc acts (k # to_kill) sent out)
         = out @ concat (map (\<lambda>kr. [report_of (fst kr), snd kr]) (zip (k # to_kill) (r # outs)))"
    using o rok step by simp
  then show ?case by blast
qed

lemma ancient_unshown: "years_1_to_9999 (- 100000000000) = Some ValueError"
  by (simp add: years_1_to_9999_def)

lemma ancient_live_run:
  "main (Some ancient_fc) no_strptime sub64 years_1_to_9999 101000 False 3600
     = ([UsedService ''WANIPConnection1'', ToClose 2 False, Traceback ValueError],
        no_args actions_to_try, 1)"
  by code_simp

lemma ancient_dry_run:
  "main (Some ancient_fc) no_strptime sub64 years_1_to_9999 101000 True 3600
     = ([UsedService ''WANIPConnection1'', ToClose 2 True, Traceback ValueError],
        no_args actions_to_try, 1)"
  by code_simp

lemma dead_live_run:
  "terminate False years_1_to_9999 dead_svc close_actions
       [(demo_conn, 1000, 100000), (odd_conn, 5, 7)] []
     = ([ToClose 2 False,
         Report (PStr ''1.2.3.4'') (PStr ''80'') (PStr ''1'') 1000 100000, CouldNotClose,
         Report (PStr []) (PStr []) PNone 5 7, CouldNotClose],
        [(''DeleteConnection'', [(''ConnectionID'', PStr ''1'')]), (''DeleteConnection'', [])],
        None)"
  by code_simp

text \<open>
  Claim C8. In live mode the close actions that the service declares are tried in the
  order of the list. When the loop reports an action, that action is the first one whose
  call did not raise: every declared action before it was called and raised, and no action
  after it was called. When it reports none, every declared action was called, in order,
  and raised, which includes the case that none is declared. For a stale connection whose
  date can be shown, the report line is followed by the outcome of this loop, executed or
  could not close, and the run goes on with the next connection from the calls made so far,
  whatever the outcome was. When the date of a connection cannot be shown, the run ends
  with the exception before the line, the close attempt and all later connections; the run
  ends early in this way only, never by what the close actions do.
\<close>

theorem C8_first_success_wins_and_failure_goes_on:
  "(try_close svc acts connid remote port sent = (Some a, sent') \<longrightarrow>
      (\<exists>pre post. applicable svc acts = pre @ a # post
         \<and> sent' = sent @ calls_of svc connid remote port (pre @ [a])
         \<and> \<not> fails svc connid remote port sent pre a
         \<and> (\<forall>p b q. pre = p @ b # q \<longrightarrow> fails svc connid remote port sent p b)))
   \<and> (try_close svc acts connid remote port sent = (None, sent') \<longrightarrow>
        sent' = sent @ calls_of svc connid remote port (applicable svc acts)
        \<and> (\<forall>p b q. applicable svc acts = p @ b # q \<longrightarrow> fails svc connid remote port sent p b))
   \<and> (fromts ts = None \<longrightarrow>
        kill_loop False fromts svc acts ((c, ts, age) # rest) sent out
          = kill_loop False fromts svc acts rest
              (snd (try_close svc acts (get_connid c) (get_remote c) (get_port c) sent))
              (out @ [report_of (c, ts, age),
                      outcome_line (fst (try_close svc acts (get_connid c) (get_remote c)
                                           (get_port c) sent))]))
   \<and> (fromts ts = Some e \<longrightarrow>
        kill_loop dry_run fromts svc acts ((c, ts, age) # rest) sent out = (out, sent, Some e))
   \<and> snd (snd (terminate dry_run fromts svc acts to_kill sent)) = render_error fromts to_kill
   \<and> ((\<forall>k \<in> set to_kill. shown fromts k) \<longrightarrow>
        (\<exists>outs. length outs = length to_kill
           \<and> (\<forall>r \<in> set outs. r = CouldNotClose \<or> (\<exists>a \<in> set (applicable svc acts). r = Executed a))
           \<and> fst (terminate False fromts svc acts to_kill sent)
               = ToClose (length to_kill) False
                   # concat (map (\<lambda>kr. [report_of (fst kr), snd kr]) (zip to_kill outs))))"
proof -
  have 3: "fromts ts = None \<longrightarrow>
        kill_loop False fromts svc acts ((c, ts, age) # rest) sent out
          = kill_loop False fromts svc acts rest
              (snd (try_close svc acts (get_connid c) (get_remote c) (get_port c) sent))
              (out @ [report_of (c, ts, age),
                      outcome_line (fst (try_close svc acts (get_connid c) (get_remote c)
                                           (get_port c) sent))])"
    using kill_loop_step by blast
  have 4: "fromts ts = Some e \<longrightarrow>
        kill_loop dry_run fromts svc acts ((c, ts, age) # rest) sent out = (out, sent, Some e)"
    using kill_loop_raise by blast
  have 5: "snd (snd (terminate dry_run fromts svc acts to_kill sent)) = render_error fromts to_kill"
    by (simp add: terminate_def kill_loop_error)
  have 6: "(\<forall>k \<in> set to_kill. shown fromts k) \<longrightarrow>
        (\<exists>outs. length outs = length to_kill
           \<and> (\<forall>r \<in> set outs. r = CouldNotClose \<or> (\<exists>a \<in> set (applicable svc acts). r = Executed a))
           \<and> fst (terminate False fromts svc acts to_kill sent)
               = ToClose (length to_kill) False
                   # concat (map (\<lambda>kr. [report_of (fst kr), snd kr]) (zip to_kill outs)))"
  proof
    assume "\<forall>k \<in> set to_kill. shown fromts k"
    from kill_loop_live [OF this, of svc acts sent "[ToClose (length to_kill) False]"]
    show "\<exists>outs. length outs = length to_kill
           \<and> (\<forall>r \<in> set outs. r = CouldNotClose \<or> (\<exists>a \<in> set (applicable svc acts). r = Executed a))
           \<and> fst (terminate False fromts svc acts to_kill sent)
               = ToClose (length to_kill) False
                   # concat (map (\<lambda>kr. [report_of (fst kr), snd kr]) (zip to_kill outs))"
      by (simp add: terminate_def)
  qed
  have 1: "try_close svc acts connid remote port sent = (Some a, sent') \<longrightarrow>
      (\<exists>pre post. applicable svc acts = pre @ a # post
         \<and> sent' = sent @ calls_of svc connid remote port (pre @ [a])
         \<and> \<not> fails svc connid remote port sent pre a
         \<and> (\<forall>p b q. pre = p @ b # q \<longrightarrow> fails svc connid remote port sent p b))"
    using try_close_Some [of svc acts connid remote port sent a sent'] by blast
  have 2: "try_close svc acts connid remote port sent = (None, sent') \<longrightarrow>
        sent' = sent @ calls_of svc connid remote port (applicable svc acts)
        \<and> (\<forall>p b q. applicable svc acts = p @ b # q \<longrightarrow> fails svc connid remote port sent p b)"
    using try_close_None [of svc acts connid remote port sent sent'] by blast
  show ?thesis using 1 2 3 4 5 6 by (simp only: simp_thms)
qed

lemma stubborn_eval:
  "try_close stubborn_svc close_actions (PStr ''1'') (PStr ''1.2.3.4'') (PStr ''80'') []
     = (Some ''ForceCloseConnection'',
        [(''DeleteConnection'', [(''ConnectionID'', PStr ''1'')]),
         (''ForceCloseConnection'', [(''ConnectionID'', PStr ''1''), (''ID'', PStr ''1'')])])"
  by code_simp

lemma dead_eval_close:
  "try_close dead_svc close_actions (PStr ''1'') (PStr ''1.2.3.4'') (PStr ''80'') []
     = (None, [(''DeleteConnection'', [(''ConnectionID'', PStr ''1'')])])"
  by code_simp

lemma demo_shown: "years_1_to_9999 1000 = None \<and> years_1_to_9999 5 = None"
  by (simp add: years_1_to_9999_def)

theorem C8_witness:
  "terminate False years_1_to_9999 ancient_svc close_actions
       [(ancient_conn, - 100000000000, 100000101000), (demo_conn, 1000, 100000)] []
     = ([ToClose 2 False], [], Some ValueError)
   \<and> main (Some ancient_fc) no_strptime sub64 years_1_to_9999 101000 False 3600
     = ([UsedService ''WANIPConnection1'', ToClose 2 False, Traceback ValueError],
        no_args actions_to_try, 1)
   \<and> terminate False years_1_to_9999 dead_svc close_actions
       [(demo_conn, 1000, 100000), (odd_conn, 5, 7)] []
     = ([ToClose 2 False,
         Report (PStr ''1.2.3.4'') (PStr ''80'') (PStr ''1'') 1000 100000, CouldNotClose,
         Report (PStr []) (PStr []) PNone 5 7, CouldNotClose],
        [(''DeleteConnection'', [(''ConnectionID'', PStr ''1'')]), (''DeleteConnection'', [])],
        None)
   \<and> (\<exists>pre post. applicable stubborn_svc close_actions = pre @ ''ForceCloseConnection'' # post
        \<and> \<not> fails stubborn_svc (PStr ''1'') (PStr ''1.2.3.4'') (PStr ''80'') [] pre
              ''ForceCloseConnection''
        \<and> (\<forall>p b q. pre = p @ b # q
              \<longrightarrow> fails stubborn_svc (PStr ''1'') (PStr ''1.2.3.4'') (PStr ''80'') [] p b))
   \<and> applicable dead_svc close_actions = [''DeleteConnection'']
   \<and> fails dead_svc (PStr ''1'') (PStr ''1.2.3.4'') (PStr ''80'') [] [] ''DeleteConnection''
   \<and> kill_loop False years_1_to_9999 dead_svc close_actions
         [(demo_conn, 1000, 100000), (odd_conn, 5, 7)] [] [ToClose 2 False]
       = kill_loop False years_1_to_9999 dead_svc close_actions [(odd_conn, 5, 7)]
           (snd (try_close dead_svc close_actions (get_connid demo_conn) (get_remote demo_conn)
                   (get_port demo_conn) []))
           ([ToClose 2 False] @ [report_of (demo_conn, 1000, 100000),
              outcome_line (fst (try_close dead_svc close_actions (get_connid demo_conn)
                                   (get_remote demo_conn) (get_port demo_conn) []))])
   \<and> (\<exists>outs. length outs = 2
        \<and> fst (terminate False years_1_to_9999 dead_svc close_actions
                  [(demo_conn, 1000, 100000), (odd_conn, 5, 7)] [])
            = ToClose 2 False
                # concat (map (\<lambda>kr. [report_of (fst kr), snd kr])
                     (zip [(demo_conn, 1000, 100000), (odd_conn, 5, 7)] outs)))"
proof -
  note t = C8_first_success_wins_and_failure_goes_on
      [where fromts = years_1_to_9999 and ts = "- 100000000000" and e = ValueError
         and dry_run = False and svc = ancient_svc and acts = close_actions
         and c = ancient_conn and age = 100000101000 and rest = "[(demo_conn, 1000, 100000)]"
         and sent = "[]" and out = "[ToClose 2 False]" and to_kill = "[]"]
  have 1: "terminate False years_1_to_9999 ancient_svc close_actions
       [(ancient_conn, - 100000000000, 100000101000), (demo_conn, 1000, 100000)] []
     = ([ToClose 2 False], [], Some ValueError)"
    using t ancient_unshown by (simp add: terminate_def)
  note s = C8_first_success_wins_and_failure_goes_on
      [where svc = stubborn_svc and acts = close_actions and connid = "PStr ''1''"
         and remote = "PStr ''1.2.3.4''" and port = "PStr ''80''" and sent = "[]"
         and a = "''ForceCloseConnection''"
         and sent' = "[(''DeleteConnection'', [(''ConnectionID'', PStr ''1'')]),
           (''ForceCloseConnection'', [(''ConnectionID'', PStr ''1''), (''ID'', PStr ''1'')])]"
         and to_kill = "[]"]
  have 4: "\<exists>pre post. applicable stubborn_svc close_actions = pre @ ''ForceCloseConnection'' # post
      \<and> \<not> fails stubborn_svc (PStr ''1'') (PStr ''1.2.3.4'') (PStr ''80'') [] pre
            ''ForceCloseConnection''
      \<and> (\<forall>p b q. pre = p @ b # q
            \<longrightarrow> fails stubborn_svc (PStr ''1'') (PStr ''1.2.3.4'') (PStr ''80'') [] p b)"
    using s stubborn_eval by blast
  note d = C8_first_success_wins_and_failure_goes_on
      [where svc = dead_svc and acts = close_actions and connid = "PStr ''1''"
         and remote = "PStr ''1.2.3.4''" and port = "PStr ''80''" and sent = "[]"
         and sent' = "[(''DeleteConnection'', [(''ConnectionID'', PStr ''1'')])]"
         and fromts = years_1_to_9999 and ts = 1000 and c = demo_conn and age = 100000
         and rest = "[(odd_conn, 5, 7)]" and out = "[ToClose 2 False]"
         and to_kill = "[(demo_conn, 1000, 100000), (odd_conn, 5, 7)]"]
  have ap: "applicable dead_svc close_actions = [''DeleteConnection'']"
    by code_simp
  have "\<forall>p b q. applicable dead_svc close_actions = p @ b # q
         \<longrightarrow> fails dead_svc (PStr ''1'') (PStr ''1.2.3.4'') (PStr ''80'') [] p b"
    using d dead_eval_close by blast
  then have 5: "fails dead_svc (PStr ''1'') (PStr ''1.2.3.4'') (PStr ''80'') [] [] ''DeleteConnection''"
    using ap by simp
  have 6: "kill_loop False years_1_to_9999 dead_svc close_actions
         [(demo_conn, 1000, 100000), (odd_conn, 5, 7)] [] [ToClose 2 False]
       = kill_loop False years_1_to_9999 dead_svc close_actions [(odd_conn, 5, 7)]
           (snd (try_close dead_svc close_actions (get_connid demo_conn) (get_remote demo_conn)
                   (get_port demo_conn) []))
           ([ToClose 2 False] @ [report_of (demo_conn, 1000, 100000),
              outcome_line (fst (try_close dead_svc close_actions (get_connid demo_conn)
                                   (get_remote demo_conn) (get_port demo_conn) []))])"
    using d demo_shown by blast
  have sh: "\<forall>k \<in> set [(demo_conn, 1000::int, 100000::int), (odd_conn, 5, 7)]. shown years_1_to_9999 k"
    using demo_shown by (simp add: shown_def)
  have 7: "\<exists>outs. length outs = 2
        \<and> fst (terminate False years_1_to_9999 dead_svc close_actions
                  [(demo_conn, 1000, 100000), (odd_conn, 5, 7)] [])
            = ToClose 2 False
                # concat (map (\<lambda>kr. [report_of (fst kr), snd kr])
                     (zip [(demo_conn, 1000, 100000), (odd_conn, 5, 7)] outs))"
  proof -
    from d sh obtain outs where
      o: "length outs = length [(demo_conn, 1000::int, 100000::int), (odd_conn, 5, 7)]"
         "fst (terminate False years_1_to_9999 dead_svc close_actions
                  [(demo_conn, 1000, 100000), (odd_conn, 5, 7)] [])
            = ToClose (length [(demo_conn, 1000::int, 100000::int), (odd_conn, 5, 7)]) False
                # concat (map (\<lambda>kr. [report_of (fst kr), snd kr])
                     (zip [(demo_conn, 1000, 100000), (odd_conn, 5, 7)] outs))"
      by blast
    then have "length outs = 2
        \<and> fst (terminate False years_1_to_9999 dead_svc close_actions
                  [(demo_conn, 1000, 100000), (odd_conn, 5, 7)] [])
            = ToClose 2 False
                # concat (map (\<lambda>kr. [report_of (fst kr), snd kr])
                     (zip [(demo_conn, 1000, 100000), (odd_conn, 5, 7)] outs))"
      by simp
    then show ?thesis by blast
  qed
  show ?thesis using 1 4 ap 5 6 7 ancient_live_run dead_live_run by blast
qed

lemma collect_sent: "snd (collect svc acts sent connections) = sent @ no_args acts"
  by (induction acts arbitrary: sent connections) (auto simp: no_args_def split: option.splits)

lemma port_mapping_sent:
  "set (snd (port_mapping_info svc sent)) \<subseteq> set sent \<union> set (no_args actions_to_try)"
  by (auto simp: port_mapping_info_def no_args_def actions_to_try_def)

lemma main_dry_sent:
  "set (fst (snd (main connection strp fsub fromts now True threshold)))
     \<subseteq> set (no_args actions_to_try)"
proof (cases connection)
  case None
  then show ?thesis by (simp add: main_def)
next
  case (Some fc)
  show ?thesis
  proof (cases "try_service fc candidates")
    case None
    then show ?thesis using Some by (simp add: main_def)
  next
    case (Some svc)
    obtain connections sent where c: "collect svc actions_to_try [] [] = (connections, sent)"
      by (cases "collect svc actions_to_try [] []") auto
    then have s: "sent = no_args actions_to_try"
      using collect_sent [of svc actions_to_try "[]" "[]"] by simp
    obtain info sent1 where p: "port_mapping_info svc sent = (info, sent1)"
      by (cases "port_mapping_info svc sent") auto
    then have s1: "set sent1 \<subseteq> set (no_args actions_to_try)"
      using port_mapping_sent [of svc sent] s by auto
    obtain to_kill err where f: "find_stale strp fsub now threshold (dedup connections) = (to_kill, err)"
      by (cases "find_stale strp fsub now threshold (dedup connections)") auto
    show ?thesis
      using \<open>connection = Some fc\<close> Some c p s s1 f
      by (cases err; cases "render_error fromts to_kill")
         (simp_all add: main_def Let_def terminate_def kill_loop_dry)
  qed
qed

text \<open>
  Claim C1. With the dry-run flag set, closing a list of stale connections makes no call:
  the list of calls comes back as it went in, for every service, list of close actions and
  list of stale connections, also when the run ends early. The output is the heading and a
  report line with the remote end and the identifier for each stale connection up to the
  first one whose date cannot be shown; there the run ends with the exception, and that
  connection and the ones after it get no line. When every date can be shown, each stale
  connection gets its line. Over a whole run with the flag set, the only calls made are the
  read actions, without arguments.
\<close>

theorem C1_dry_run_makes_no_call:
  "terminate True fromts svc acts to_kill sent
     = (ToClose (length to_kill) True # map report_of (takeWhile (shown fromts) to_kill),
        sent, render_error fromts to_kill)
   \<and> ((\<forall>k \<in> set to_kill. shown fromts k) \<longrightarrow>
        terminate True fromts svc acts to_kill sent
          = (ToClose (length to_kill) True # map report_of to_kill, sent, None))
   \<and> set (fst (snd (main connection strp fsub fromts now True threshold)))
        \<subseteq> set (no_args actions_to_try)"
  by (simp add: terminate_def kill_loop_dry main_dry_sent takeWhile_all render_error_none)

lemma demo_report:
  "report_of (demo_conn, 1000, 100000)
     = Report (PStr ''1.2.3.4'') (PStr ''80'') (PStr ''1'') 1000 100000"
  by (simp add: report_of_def get_remote_def get_port_def get_connid_def py_or_def
      dict_get_def demo_conn_def)

theorem C1_witness:
  "terminate True years_1_to_9999 ancient_svc close_actions
       [(ancient_conn, - 100000000000, 100000101000), (demo_conn, 1000, 100000)]
       [(''GetConnectionList'', [])]
     = ([ToClose 2 True], [(''GetConnectionList'', [])], Some ValueError)
   \<and> main (Some ancient_fc) no_strptime sub64 years_1_to_9999 101000 True 3600
     = ([UsedService ''WANIPConnection1'', ToClose 2 True, Traceback ValueError],
        no_args actions_to_try, 1)
   \<and> terminate True years_1_to_9999 demo_svc close_actions [(demo_conn, 1000, 100000)]
       [(''GetConnectionList'', [])]
     = ([ToClose 1 True, Report (PStr ''1.2.3.4'') (PStr ''80'') (PStr ''1'') 1000 100000],
        [(''GetConnectionList'', [])], None)"
proof -
  have 1: "terminate True years_1_to_9999 ancient_svc close_actions
       [(ancient_conn, - 100000000000, 100000101000), (demo_conn, 1000, 100000)]
       [(''GetConnectionList'', [])]
     = ([ToClose 2 True], [(''GetConnectionList'', [])], Some ValueError)"
    using C1_dry_run_makes_no_call
      [of years_1_to_9999 ancient_svc close_actions
          "[(ancient_conn, - 100000000000, 100000101000), (demo_conn, 1000, 100000)]"
          "[(''GetConnectionList'', [])]"]
      ancient_unshown
    by (simp add: shown_def)
  have sh: "\<forall>k \<in> set [(demo_conn, 1000::int, 100000::int)]. shown years_1_to_9999 k"
    by (simp add: shown_def years_1_to_9999_def)
  have 3: "terminate True years_1_to_9999 demo_svc close_actions [(demo_conn, 1000, 100000)]
       [(''GetConnectionList'', [])]
     = ([ToClose 1 True, Report (PStr ''1.2.3.4'') (PStr ''80'') (PStr ''1'') 1000 100000],
        [(''GetConnectionList'', [])], None)"
    using C1_dry_run_makes_no_call
      [of years_1_to_9999 demo_svc close_actions "[(demo_conn, 1000, 100000)]"
          "[(''GetConnectionList'', [])]"]
      sh demo_shown
    by (simp add: demo_report)
  show ?thesis using 1 3 ancient_dry_run by blast
qed

lemma demo_dry_run:
  "main (Some demo_fc) no_strptime sub64 years_1_to_9999 101000 True 3600
     = ([UsedService ''WANIPConnection1'', ToClose 1 True,
         Report (PStr ''1.2.3.4'') (PStr ''80'') (PStr ''1'') 1000 100000],
        no_args actions_to_try, 0)"
  by code_simp

lemma demo_live_run:
  "main (Some demo_fc) no_strptime sub64 years_1_to_9999 101000 False 3600
     = ([UsedService ''WANIPConnection1'', ToClose 1 False,
         Report (PStr ''1.2.3.4'') (PStr ''80'') (PStr ''1'') 1000 100000,
         Executed ''DeleteConnection''],
        no_args actions_to_try @ [(''DeleteConnection'', [(''ConnectionID'', PStr ''1'')])], 0)"
  by code_simp

section \<open>Identifier and arguments of a close call\<close>

lemma get_connid_truthy:
  "get_connid c =
     (case find (\<lambda>k. truthy (dict_get c k)) [''ConnectionID'', ''Id'', ''ID''] of
        None \<Rightarrow> dict_get c ''ID''
      | Some k \<Rightarrow> dict_get c k)"
  by (simp add: get_connid_def py_or_def)

lemma bind_keys_all:
  "bind_keys id_keys params connid []
     = map (\<lambda>key. (key, connid)) (filter (\<lambda>key. key \<in> set params) id_keys)"
  by (simp add: id_keys_def dict_set_def has_key_def)

lemma build_args_id:
  "truthy connid \<Longrightarrow>
     build_args svc action connid remote port =
       (if \<exists>key \<in> set id_keys. key \<in> set (declared_params svc action)
        then map (\<lambda>key. (key, connid))
               (filter (\<lambda>key. key \<in> set (declared_params svc action)) id_keys)
        else [(''ConnectionID'', connid)])"
  by (auto simp: build_args_def bind_keys_all Let_def filter_empty_conv)

lemma try_close_first_call:
  "declared svc action \<Longrightarrow>
     prefix (sent @ [(action, build_args svc action connid remote port)])
            (snd (try_close svc (action # rest) connid remote port sent))"
proof (cases "try_close svc (action # rest) connid remote port sent")
  case (Pair res sent1)
  assume d: "declared svc action"
  show ?thesis
  proof (cases res)
    case None
    then have "sent1 = sent @ calls_of svc connid remote port (applicable svc (action # rest))"
      using Pair try_close_None by blast
    then show ?thesis using d Pair by (simp add: applicable_def calls_of_def)
  next
    case (Some a)
    then obtain pre post where
      p: "applicable svc (action # rest) = pre @ a # post"
         "sent1 = sent @ calls_of svc connid remote port (pre @ [a])"
      using Pair try_close_Some by blast
    have "hd (pre @ [a]) = action"
      using p(1) d by (cases pre) (auto simp: applicable_def)
    then obtain tl' where "pre @ [a] = action # tl'" by (cases "pre @ [a]") auto
    then show ?thesis using p(2) Pair by (simp add: calls_of_def)
  qed
qed

text \<open>
  Claim C7, as the code has it. The identifier is the value of the first of the fields
  ConnectionID, Id, ID whose value is true for Python (not missing, not empty, not zero).
  With such an identifier, an action whose declared parameters contain any of
  ConnectionID, ID, Id is called with the identifier under every one of these names that
  it declares, in this order; an action that declares none of them, in particular one with
  no declared parameter, is called with the identifier under the name ConnectionID alone.
  These are the arguments of the call that is made for a declared action.
\<close>

theorem C7_identifier_and_binding:
  "get_connid c =
     (case find (\<lambda>k. truthy (dict_get c k)) [''ConnectionID'', ''Id'', ''ID''] of
        None \<Rightarrow> dict_get c ''ID''
      | Some k \<Rightarrow> dict_get c k)
   \<and> (truthy connid \<longrightarrow>
        build_args svc action connid remote port =
          (if \<exists>key \<in> set id_keys. key \<in> set (declared_params svc action)
           then map (\<lambda>key. (key, connid))
                  (filter (\<lambda>key. key \<in> set (declared_params svc action)) id_keys)
           else [(''ConnectionID'', connid)]))
   \<and> (truthy connid \<and> declared_params svc action = [] \<longrightarrow>
        build_args svc action connid remote port = [(''ConnectionID'', connid)])
   \<and> (declared svc action \<longrightarrow>
        prefix (sent @ [(action, build_args svc action connid remote port)])
               (snd (try_close svc (action # rest) connid remote port sent)))"
  using get_connid_truthy [of c] build_args_id [of connid svc action remote port]
    try_close_first_call [of svc action sent connid remote port rest]
  by auto

lemma blank_eval:
  "get_connid blank_conn = PStr ''7'' \<and> spec_connid blank_conn = PStr []
   \<and> truthy (PStr ''7'')
   \<and> declared stubborn_svc ''ForceCloseConnection''
   \<and> declared_params stubborn_svc ''DeleteConnection'' = []
   \<and> build_args stubborn_svc ''ForceCloseConnection'' (PStr ''7'') (PStr []) (PStr [])
       = [(''ConnectionID'', PStr ''7''), (''ID'', PStr ''7'')]
   \<and> spec_args (declared_params stubborn_svc ''ForceCloseConnection'') (PStr ''7'')
       = [(''ConnectionID'', PStr ''7'')]"
  by code_simp

theorem C7_witness:
  "get_connid blank_conn = PStr ''7''
   \<and> build_args stubborn_svc ''DeleteConnection'' (PStr ''7'') (PStr []) (PStr [])
       = [(''ConnectionID'', PStr ''7'')]
   \<and> prefix [(''ForceCloseConnection'', [(''ConnectionID'', PStr ''7''), (''ID'', PStr ''7'')])]
        (snd (try_close stubborn_svc [''ForceCloseConnection''] (PStr ''7'') (PStr []) (PStr []) []))"
proof -
  note t1 = C7_identifier_and_binding [where c = blank_conn and connid = "PStr ''7''"
      and svc = stubborn_svc and action = "''DeleteConnection''" and remote = "PStr []"
      and port = "PStr []" and sent = "[]" and rest = "[]"]
  note t2 = C7_identifier_and_binding [where c = blank_conn and connid = "PStr ''7''"
      and svc = stubborn_svc and action = "''ForceCloseConnection''" and remote = "PStr []"
      and port = "PStr []" and sent = "[]" and rest = "[]"]
  have 1: "get_connid blank_conn = PStr ''7''"
    using blank_eval by blast
  have 2: "build_args stubborn_svc ''DeleteConnection'' (PStr ''7'') (PStr []) (PStr [])
       = [(''ConnectionID'', PStr ''7'')]"
    using t1 blank_eval by blast
  have "prefix ([] @ [(''ForceCloseConnection'',
            build_args stubborn_svc ''ForceCloseConnection'' (PStr ''7'') (PStr []) (PStr []))])
        (snd (try_close stubborn_svc [''ForceCloseConnection''] (PStr ''7'') (PStr []) (PStr []) []))"
    using t2 blank_eval by blast
  then have 3: "prefix [(''ForceCloseConnection'', [(''ConnectionID'', PStr ''7''), (''ID'', PStr ''7'')])]
        (snd (try_close stubborn_svc [''ForceCloseConnection''] (PStr ''7'') (PStr []) (PStr []) []))"
    using blank_eval by (simp only: append_Nil)
  show ?thesis using 1 2 3 by blast
qed

text \<open>
  The claim as stated fails on a record whose ConnectionID is present and empty: the first
  field present is ConnectionID, and the identifier used is the value of Id. It fails on an
  action that declares two of the names: the identifier is bound to both, not to the first.
\<close>

theorem C7_counterexample:
  "spec_connid blank_conn = PStr [] \<and> get_connid blank_conn = PStr ''7''
   \<and> spec_args (declared_params stubborn_svc ''ForceCloseConnection'') (PStr ''7'')
       = [(''ConnectionID'', PStr ''7'')]
   \<and> build_args stubborn_svc ''ForceCloseConnection'' (PStr ''7'') (PStr []) (PStr [])
       = [(''ConnectionID'', PStr ''7''), (''ID'', PStr ''7'')]"
  by code_simp

end
